theory Spec2Isabelle
  imports Complex_Main
begin

section \<open>Data model of \<open>fbnet-pytorch/model.py\<close>\<close>

text \<open>
  The Python exceptions the modelled code can raise. \<open>RuntimeError\<close> is what torch raises
  on tensors whose shapes do not fit. \<open>NonFinite\<close> is not an exception: it marks the places
  where the floating-point computation yields \<open>inf\<close> or \<open>nan\<close> (a division by a zero batch
  size, a zero temperature, a negative base under a fractional power), which the
  real-number model of tensors cannot represent.
\<close>

datatype error =
    AssertionError | IndexError | ValueError | TypeError | AttributeError
  | RuntimeError | FileNotFoundError | ZeroDivisionError | NonFinite

text \<open>
  A feature tensor has the four axes batch, channel, height, width. Floats are modelled
  by real numbers. A block is an opaque callable from feature tensor to feature tensor.
\<close>

type_synonym tensor = "real list list list list"
type_synonym block = "tensor \<Rightarrow> tensor"

text \<open>
  An element of the \<open>blocks\<close> sequence: an \<open>nn.Module\<close>, a Python list of blocks, or any
  other object (which passes neither \<open>isinstance\<close> test).
\<close>

datatype entry = Module block | Group "block list" | Other

text \<open>\<open>nn.Linear\<close>: its weight matrix (one row per class), bias and \<open>in_features\<close>.\<close>

record linear =
  in_features :: nat
  lin_weight :: "real list list"
  lin_bias :: "real list"

text \<open>
  The attributes of an \<open>FBNet\<close> object. \<open>fb_ops\<close> holds the block list of every
  \<open>MixedOp\<close>; the last five attributes are unset until the first \<open>forward\<close>.
\<close>

record fbnet =
  fb_alpha :: real
  fb_beta :: real
  fb_theta :: "real list list"
  fb_ops :: "block list list"
  fb_blocks :: "entry list"
  fb_input_conv :: "block list"
  fb_input_conv_count :: nat
  fb_output_conv :: "block list"
  fb_speed :: "string list"
  fb_classifier :: linear
  fb_batch_size :: "nat option"
  fb_ce :: "real option"
  fb_lat_loss :: "real option"
  fb_loss :: "real option"
  fb_acc :: "real option"

section \<open>\<open>FBNet.__init__\<close>\<close>

text \<open>
  The first and the third loop of the constructor collect the leading \<open>nn.Module\<close>
  elements of a sequence and stop at the first element of another kind.
\<close>

fun leading_modules :: "entry list \<Rightarrow> block list" where
  "leading_modules [] = []"
| "leading_modules (Module f # bs) = f # leading_modules bs"
| "leading_modules (b # bs) = []"

text \<open>The second loop visits every element and keeps the lists, wherever they stand.\<close>

fun groups_of :: "entry list \<Rightarrow> block list list" where
  "groups_of [] = []"
| "groups_of (Group g # bs) = g # groups_of bs"
| "groups_of (b # bs) = groups_of bs"

text \<open>
  \<open>init num_classes blocks init_theta speed_f alpha beta w0 b0\<close>: \<open>speed_f\<close> is what
  \<open>readlines\<close> yields on the latency file (\<open>None\<close> when it cannot be opened); \<open>w0\<close> and
  \<open>b0\<close> are the initial weights that \<open>nn.Linear(1984, num_classes)\<close> draws.
\<close>

definition init ::
  "nat \<Rightarrow> entry list \<Rightarrow> real \<Rightarrow> string list option \<Rightarrow> real \<Rightarrow> real
    \<Rightarrow> real list list \<Rightarrow> real list \<Rightarrow> error + fbnet" where
  "init num_classes blocks init_theta speed_f alpha beta w0 b0 =
     (let tmp = leading_modules blocks;
          input_conv_count = length tmp;
          groups = groups_of blocks;
          theta = map (\<lambda>b. replicate (length b) init_theta) groups;
          input_conv_count' = input_conv_count + length groups;
          tmp' = leading_modules (drop input_conv_count' blocks)
      in if length theta \<noteq> 22 then Inl AssertionError
         else case speed_f of
                None \<Rightarrow> Inl FileNotFoundError
              | Some lines \<Rightarrow>
                  Inr \<lparr> fb_alpha = alpha, fb_beta = beta, fb_theta = theta,
                        fb_ops = groups, fb_blocks = blocks,
                        fb_input_conv = tmp, fb_input_conv_count = input_conv_count,
                        fb_output_conv = tmp', fb_speed = lines,
                        fb_classifier = \<lparr> in_features = 1984, lin_weight = w0, lin_bias = b0 \<rparr>,
                        fb_batch_size = None, fb_ce = None, fb_lat_loss = None,
                        fb_loss = None, fb_acc = None \<rparr>)"

text \<open>The number of candidate groups of a blocks sequence: its elements that are lists.\<close>

fun is_group :: "entry \<Rightarrow> bool" where
  "is_group (Group g) = True"
| "is_group b = False"

section \<open>Strings and numbers read from the latency file\<close>

text \<open>
  Python's white space (the ASCII part; a \<open>char\<close> is a byte), \<open>str.strip()\<close> and
  \<open>str.split(sep)\<close> for a one-character separator. Splitting on a given separator cuts
  at every occurrence of it, so two adjacent separators enclose an empty token.
\<close>

definition is_space :: "char \<Rightarrow> bool" where
  "is_space c = (c \<in> set [CHR '' '', CHR 0x09, CHR 0x0A, CHR 0x0B, CHR 0x0C, CHR 0x0D,
                            CHR 0x1C, CHR 0x1D, CHR 0x1E, CHR 0x1F])"

definition py_strip :: "string \<Rightarrow> string" where
  "py_strip s = rev (dropWhile is_space (rev (dropWhile is_space s)))"

fun split_on :: "char \<Rightarrow> string \<Rightarrow> string list" where
  "split_on sep [] = [[]]"
| "split_on sep (c # cs) =
     (if c = sep then [] # split_on sep cs
      else (case split_on sep cs of [] \<Rightarrow> [[c]] | w # ws \<Rightarrow> (c # w) # ws))"

definition is_digit :: "char \<Rightarrow> bool" where
  "is_digit c = (c \<in> set ''0123456789'')"

definition digit_val :: "char \<Rightarrow> nat" where
  "digit_val c = of_char c - 48"

definition nat_of_digits :: "string \<Rightarrow> nat" where
  "nat_of_digits ds = foldl (\<lambda>a c. 10 * a + digit_val c) 0 ds"

text \<open>
  Python's \<open>float(s)\<close> on decimal literals: surrounding white space, an optional sign,
  digits with an optional fraction, an optional exponent. Anything else raises
  \<open>ValueError\<close>, the empty string included. (Python also reads \<open>inf\<close>, \<open>nan\<close> and
  underscores between digits; these have no real value or are not modelled, and the
  model rejects them.)
\<close>

definition py_float :: "string \<Rightarrow> error + real" where
  "py_float s =
     (let t = py_strip s;
          neg = (t \<noteq> [] \<and> hd t = CHR ''-'');
          u = (if t \<noteq> [] \<and> (hd t = CHR ''-'' \<or> hd t = CHR ''+'') then tl t else t);
          ip = takeWhile is_digit u;
          r1 = dropWhile is_digit u;
          dot = (r1 \<noteq> [] \<and> hd r1 = CHR ''.'');
          fp = (if dot then takeWhile is_digit (tl r1) else []);
          r2 = (if dot then dropWhile is_digit (tl r1) else r1);
          ex = (r2 \<noteq> [] \<and> (hd r2 = CHR ''e'' \<or> hd r2 = CHR ''E''));
          r3 = (if ex then tl r2 else []);
          eneg = (r3 \<noteq> [] \<and> hd r3 = CHR ''-'');
          ed = (if r3 \<noteq> [] \<and> (hd r3 = CHR ''-'' \<or> hd r3 = CHR ''+'') then tl r3 else r3);
          m = real (nat_of_digits ip) + real (nat_of_digits fp) / 10 ^ length fp;
          v = (if eneg then m / 10 ^ nat_of_digits ed else m * 10 ^ nat_of_digits ed)
      in if ip = [] \<and> fp = [] then Inl ValueError
         else if r2 \<noteq> [] \<and> \<not> ex then Inl ValueError
         else if ex \<and> (ed = [] \<or> \<not> list_all is_digit ed) then Inl ValueError
         else Inr (if neg then - v else v))"

section \<open>Tensor operations\<close>

text \<open>A list comprehension or loop whose body can raise: the first error aborts it.\<close>

fun map_res :: "('a \<Rightarrow> error + 'b) \<Rightarrow> 'a list \<Rightarrow> error + 'b list" where
  "map_res f [] = Inr []"
| "map_res f (x # xs) =
     (case f x of
        Inl e \<Rightarrow> Inl e
      | Inr y \<Rightarrow> (case map_res f xs of Inl e \<Rightarrow> Inl e | Inr ys \<Rightarrow> Inr (y # ys)))"

text \<open>
  Python sequence indexing with a non-negative index.
\<close>

definition nth_res :: "'a list \<Rightarrow> nat \<Rightarrow> error + 'a" where
  "nth_res xs i = (if i < length xs then Inr (xs ! i) else Inl IndexError)"

text \<open>
  Broadcasting of an elementwise operation along one axis: the sizes agree, or one of
  them is 1 and that operand is repeated; otherwise torch raises. Nesting it once per
  axis gives the operation on tensors.
\<close>

definition bcast :: "('a \<Rightarrow> 'b \<Rightarrow> error + 'c) \<Rightarrow> 'a list \<Rightarrow> 'b list \<Rightarrow> error + 'c list" where
  "bcast f xs ys =
     (if length xs = length ys then map_res (\<lambda>(x, y). f x y) (zip xs ys)
      else if length xs = 1 then map_res (f (hd xs)) ys
      else if length ys = 1 then map_res (\<lambda>x. f x (hd ys)) xs
      else Inl RuntimeError)"

definition mul0 :: "real \<Rightarrow> real \<Rightarrow> error + real" where
  "mul0 a b = Inr (a * b)"

definition add0 :: "real \<Rightarrow> real \<Rightarrow> error + real" where
  "add0 a b = Inr (a + b)"

definition mul2 :: "real list list \<Rightarrow> real list list \<Rightarrow> error + real list list" where
  "mul2 = bcast (bcast mul0)"

definition mul4 :: "tensor \<Rightarrow> tensor \<Rightarrow> error + tensor" where
  "mul4 = bcast (bcast (bcast (bcast mul0)))"

definition add4 :: "tensor \<Rightarrow> tensor \<Rightarrow> error + tensor" where
  "add4 = bcast (bcast (bcast (bcast add0)))"

text \<open>
  \<open>nn.functional.gumbel_softmax(t, tau)\<close> on a matrix of logits: the softmax, along the
  last axis, of \<open>(t + g) / tau\<close>, where \<open>g\<close> is the Gumbel noise torch draws. The noise is
  an explicit argument: \<open>g b i\<close> is the sample for example \<open>b\<close> and candidate \<open>i\<close>.
\<close>

definition softmax :: "real list \<Rightarrow> real list" where
  "softmax z = map (\<lambda>x. exp x / sum_list (map exp z)) z"

definition gumbel_softmax ::
  "real list list \<Rightarrow> real \<Rightarrow> (nat \<Rightarrow> nat \<Rightarrow> real) \<Rightarrow> error + real list list" where
  "gumbel_softmax t tau g =
     (if tau = 0 \<and> concat t \<noteq> [] then Inl NonFinite
      else Inr (map (\<lambda>(b, row). softmax (map (\<lambda>(i, x). (x + g b i) / tau) (enumerate 0 row)))
                  (enumerate 0 t)))"

section \<open>\<open>MixedOp.forward\<close>\<close>

text \<open>
  A Python value that is a number or a tensor: \<open>sum\<close> starts from the integer 0, and
  that is what a \<open>MixedOp\<close> without candidates returns. A block called on a number
  raises.
\<close>

datatype pyval = Num real | Ten tensor

fun apply_block :: "block \<Rightarrow> pyval \<Rightarrow> error + tensor" where
  "apply_block op (Ten t) = Inr (op t)"
| "apply_block op (Num a) = Inl TypeError"

text \<open>\<open>weights[..., i]\<close> on a matrix of weights, one row per example.\<close>

definition column :: "nat \<Rightarrow> real list list \<Rightarrow> error + real list" where
  "column i ws =
     (if list_all (\<lambda>row. i < length row) ws then Inr (map (\<lambda>row. row ! i) ws)
      else Inl IndexError)"

text \<open>\<open>w.reshape((-1, 1, 1, 1))\<close> on a vector.\<close>

definition reshape_col :: "real list \<Rightarrow> tensor" where
  "reshape_col w = map (\<lambda>v. [[[v]]]) w"

text \<open>The loop of \<open>MixedOp.forward\<close> that fills \<open>tmp\<close>; \<open>i\<close> is the index of \<open>enumerate\<close>.\<close>

fun mixed_terms :: "block list \<Rightarrow> nat \<Rightarrow> pyval \<Rightarrow> real list list \<Rightarrow> error + tensor list" where
  "mixed_terms [] i x weights = Inr []"
| "mixed_terms (op # ops) i x weights =
     (case apply_block op x of
        Inl e \<Rightarrow> Inl e
      | Inr r \<Rightarrow>
          (case column i weights of
             Inl e \<Rightarrow> Inl e
           | Inr w \<Rightarrow>
               (case mul4 (reshape_col w) r of
                  Inl e \<Rightarrow> Inl e
                | Inr res \<Rightarrow>
                    (case mixed_terms ops (Suc i) x weights of
                       Inl e \<Rightarrow> Inl e
                     | Inr tmp \<Rightarrow> Inr (res # tmp)))))"

text \<open>Python's \<open>acc + t\<close> for a tensor \<open>t\<close>, and the builtin \<open>sum\<close> as its left fold.\<close>

fun py_add :: "pyval \<Rightarrow> tensor \<Rightarrow> error + pyval" where
  "py_add (Num a) t = Inr (Ten (map (map (map (map (\<lambda>v. a + v)))) t))"
| "py_add (Ten s) t = (case add4 s t of Inl e \<Rightarrow> Inl e | Inr r \<Rightarrow> Inr (Ten r))"

fun py_sum :: "pyval \<Rightarrow> tensor list \<Rightarrow> error + pyval" where
  "py_sum acc [] = Inr acc"
| "py_sum acc (t # ts) =
     (case py_add acc t of Inl e \<Rightarrow> Inl e | Inr acc' \<Rightarrow> py_sum acc' ts)"

definition MixedOp_forward :: "block list \<Rightarrow> pyval \<Rightarrow> real list list \<Rightarrow> error + pyval" where
  "MixedOp_forward ops x weights =
     (case mixed_terms ops 0 x weights of
        Inl e \<Rightarrow> Inl e
      | Inr tmp \<Rightarrow> py_sum (Num 0) tmp)"

section \<open>\<open>FBNet.forward\<close>\<close>

text \<open>\<open>nn.Sequential\<close>: the blocks applied in order; without blocks it returns its argument.\<close>

fun sequential :: "block list \<Rightarrow> pyval \<Rightarrow> error + pyval" where
  "sequential [] x = Inr x"
| "sequential (f # fs) x =
     (case apply_block f x of Inl e \<Rightarrow> Inl e | Inr t \<Rightarrow> sequential fs (Ten t))"

text \<open>
  The body of the loop for one candidate group of length \<open>blk_len\<close>, lines 90 to 103:
  the theta vector (the stored one, or the entry of \<open>theta_list\<close> when one is given),
  its Gumbel-Softmax weights, the latency row, the latency of the batch, which is
  appended to \<open>lat\<close>, and the mixed operation.
\<close>

definition layer ::
  "fbnet \<Rightarrow> nat \<Rightarrow> real \<Rightarrow> real list list option \<Rightarrow> (nat \<Rightarrow> nat \<Rightarrow> nat \<Rightarrow> real)
    \<Rightarrow> nat \<Rightarrow> nat \<Rightarrow> real list \<Rightarrow> pyval \<Rightarrow> error + real list \<times> pyval" where
  "layer net batch_size temperature theta_list g blk_len theta_idx lat data =
     (case (case theta_list of
              None \<Rightarrow> nth_res (fb_theta net) theta_idx
            | Some given \<Rightarrow> nth_res given theta_idx) of
        Inl e \<Rightarrow> Inl e
      | Inr theta \<Rightarrow>
     (case gumbel_softmax (replicate batch_size theta) temperature (g theta_idx) of
        Inl e \<Rightarrow> Inl e
      | Inr weight \<Rightarrow>
     (case nth_res (fb_speed net) theta_idx of
        Inl e \<Rightarrow> Inl e
      | Inr line \<Rightarrow>
     (case map_res py_float (take blk_len (split_on CHR '' '' (py_strip line))) of
        Inl e \<Rightarrow> Inl e
      | Inr speed \<Rightarrow>
     (case mul2 weight (replicate batch_size speed) of
        Inl e \<Rightarrow> Inl e
      | Inr lat' \<Rightarrow>
     (case nth_res (fb_ops net) theta_idx of
        Inl e \<Rightarrow> Inl e
      | Inr ops \<Rightarrow>
     (case MixedOp_forward ops data weight of
        Inl e \<Rightarrow> Inl e
      | Inr data' \<Rightarrow> Inr (lat @ [sum_list (concat lat')], data'))))))))"

text \<open>
  The loop of lines 87 to 106 over \<open>blocks[input_conv_count:]\<close>: a list is a searchable
  layer, any other element ends the loop. The result is the final \<open>theta_idx\<close>, \<open>lat\<close>
  and \<open>data\<close>.
\<close>

fun layers ::
  "fbnet \<Rightarrow> nat \<Rightarrow> real \<Rightarrow> real list list option \<Rightarrow> (nat \<Rightarrow> nat \<Rightarrow> nat \<Rightarrow> real)
    \<Rightarrow> entry list \<Rightarrow> nat \<Rightarrow> real list \<Rightarrow> pyval \<Rightarrow> error + nat \<times> real list \<times> pyval" where
  "layers net batch_size temperature theta_list g [] theta_idx lat data =
     Inr (theta_idx, lat, data)"
| "layers net batch_size temperature theta_list g (Group block # rest) theta_idx lat data =
     (case layer net batch_size temperature theta_list g (length block) theta_idx lat data of
        Inl e \<Rightarrow> Inl e
      | Inr (lat', data') \<Rightarrow>
          layers net batch_size temperature theta_list g rest (Suc theta_idx) lat' data')"
| "layers net batch_size temperature theta_list g (b # rest) theta_idx lat data =
     Inr (theta_idx, lat, data)"

text \<open>
  \<open>avg_pool2d(data, data.size()[2:])\<close>: the mean of every channel over its whole spatial
  extent (an empty extent raises), followed by \<open>reshape((batch_size, -1))\<close>, which cuts
  the values into \<open>batch_size\<close> rows of equal length and raises when that is impossible.
\<close>

definition avg_pool_all :: "tensor \<Rightarrow> error + real list list" where
  "avg_pool_all t =
     map_res (map_res (\<lambda>ch. if concat ch = [] then Inl RuntimeError
                              else Inr (sum_list (concat ch) / real (length (concat ch))))) t"

definition reshape_rows :: "nat \<Rightarrow> real list list \<Rightarrow> error + real list list" where
  "reshape_rows batch_size pooled =
     (let flat = concat pooled; k = length flat div batch_size
      in if batch_size = 0 \<or> length flat mod batch_size \<noteq> 0 then Inl RuntimeError
         else Inr (map (\<lambda>b. take k (drop (b * k) flat)) [0..<batch_size]))"

text \<open>The linear classifier on one row per example.\<close>

definition linear_apply :: "linear \<Rightarrow> real list list \<Rightarrow> error + real list list" where
  "linear_apply cls xs =
     (if list_all (\<lambda>x. length x = in_features cls) xs
      then Inr (map (\<lambda>x. map (\<lambda>(w, b). sum_list (map (\<lambda>(a, v). a * v) (zip w x)) + b)
                              (zip (lin_weight cls) (lin_bias cls))) xs)
      else Inl RuntimeError)"

text \<open>Lines 82 to 113: the network up to the logits, with the list of layer latencies.\<close>

definition forward_logits ::
  "fbnet \<Rightarrow> tensor \<Rightarrow> real \<Rightarrow> real list list option \<Rightarrow> (nat \<Rightarrow> nat \<Rightarrow> nat \<Rightarrow> real)
    \<Rightarrow> error + real list \<times> real list list" where
  "forward_logits net input temperature theta_list g =
     (let batch_size = length input in
      case sequential (fb_input_conv net) (Ten input) of
        Inl e \<Rightarrow> Inl e
      | Inr data \<Rightarrow>
     (case layers net batch_size temperature theta_list g
             (drop (fb_input_conv_count net) (fb_blocks net)) 0 [] data of
        Inl e \<Rightarrow> Inl e
      | Inr (theta_idx, lat, data1) \<Rightarrow>
     (case sequential (fb_output_conv net) data1 of
        Inl e \<Rightarrow> Inl e
      | Inr (Num a) \<Rightarrow> Inl AttributeError
      | Inr (Ten data2) \<Rightarrow>
     (case avg_pool_all data2 of
        Inl e \<Rightarrow> Inl e
      | Inr pooled \<Rightarrow>
     (case reshape_rows batch_size pooled of
        Inl e \<Rightarrow> Inl e
      | Inr rows \<Rightarrow>
     (case linear_apply (fb_classifier net) rows of
        Inl e \<Rightarrow> Inl e
      | Inr logits \<Rightarrow> Inr (lat, logits)))))))"

text \<open>
  \<open>nn.CrossEntropyLoss()\<close> with its default arguments (\<open>reduction='mean'\<close>,
  \<open>ignore_index=-100\<close>): the loss of one example is the negative log-softmax of its
  logits at the target class, and the result is the mean over the examples whose target
  is not the ignored index. It raises when logits and targets differ in number or a
  target is no class index.
\<close>

definition example_ce :: "real list \<Rightarrow> int \<Rightarrow> real" where
  "example_ce l t = ln (sum_list (map exp l)) - l ! nat t"

definition CrossEntropyLoss :: "real list list \<Rightarrow> int list \<Rightarrow> error + real" where
  "CrossEntropyLoss logits target =
     (if length logits \<noteq> length target then Inl ValueError
      else if \<not> list_all (\<lambda>(l, t). t = - 100 \<or> (0 \<le> t \<and> t < int (length l))) (zip logits target)
        then Inl IndexError
      else let kept = filter (\<lambda>(l, t). t \<noteq> - 100) (zip logits target)
           in if kept = [] then Inl NonFinite
              else Inr (sum_list (map (\<lambda>(l, t). example_ce l t) kept) / real (length kept)))"

text \<open>\<open>torch.argmax\<close> along the class axis: the first index of a largest logit.\<close>

fun argmax_from :: "nat \<Rightarrow> real \<Rightarrow> nat \<Rightarrow> real list \<Rightarrow> nat" where
  "argmax_from best m i [] = best"
| "argmax_from best m i (x # xs) =
     (if m < x then argmax_from i x (Suc i) xs else argmax_from best m (Suc i) xs)"

definition argmax :: "real list \<Rightarrow> error + nat" where
  "argmax l = (case l of [] \<Rightarrow> Inl RuntimeError | x # xs \<Rightarrow> Inr (argmax_from 0 x 1 xs))"

text \<open>
  \<open>x.pow(b)\<close> on a scalar tensor, where the floating-point result is a number.
\<close>

definition torch_pow :: "real \<Rightarrow> real \<Rightarrow> error + real" where
  "torch_pow x b =
     (if b = 0 then Inr 1
      else if 0 < x then Inr (x powr b)
      else if x = 0 then (if 0 < b then Inr 0 else Inl NonFinite)
      else if b = real_of_int \<lfloor>b\<rfloor> then Inr (x powi \<lfloor>b\<rfloor>)
      else Inl NonFinite)"

text \<open>
  Lines 115 to 122: cross-entropy, latency loss, combined loss and accuracy from the
  logits, the targets and the layer latencies.
\<close>

definition metrics ::
  "real \<Rightarrow> real \<Rightarrow> nat \<Rightarrow> real list \<Rightarrow> real list list \<Rightarrow> int list
    \<Rightarrow> error + real \<times> real \<times> real \<times> real" where
  "metrics alpha beta batch_size lat logits target =
     (case CrossEntropyLoss logits target of
        Inl e \<Rightarrow> Inl e
      | Inr ce \<Rightarrow>
     (if batch_size = 0 then Inl NonFinite
      else let lat_loss = sum_list lat / real batch_size in
     (case torch_pow lat_loss beta of
        Inl e \<Rightarrow> Inl e
      | Inr p \<Rightarrow>
     (case map_res argmax logits of
        Inl e \<Rightarrow> Inl e
      | Inr pred \<Rightarrow>
          Inr (ce + alpha * p, ce, lat_loss,
               real (length (filter (\<lambda>(p, t). int p = t) (zip pred target)))
                 / real batch_size)))))"

text \<open>
  \<open>forward net input target temperature theta_list g\<close>: the optional arguments are
  options, \<open>g\<close> is the Gumbel noise of the call (\<open>g l\<close> for the \<open>l\<close>-th searchable layer).
  The result is the returned tuple and the object with the attributes the call stores.
  An exception leaves no result; the attributes stored before it are not tracked.
\<close>

definition forward ::
  "fbnet \<Rightarrow> tensor \<Rightarrow> int list \<Rightarrow> real option \<Rightarrow> real list list option
    \<Rightarrow> (nat \<Rightarrow> nat \<Rightarrow> nat \<Rightarrow> real) \<Rightarrow> error + (real \<times> real \<times> real \<times> real) \<times> fbnet" where
  "forward net input target temperature theta_list g =
     (let temperature' = (case temperature of None \<Rightarrow> 5.0 | Some t \<Rightarrow> t);
          batch_size = length input in
      case forward_logits net input temperature' theta_list g of
        Inl e \<Rightarrow> Inl e
      | Inr (lat, logits) \<Rightarrow>
     (case metrics (fb_alpha net) (fb_beta net) batch_size lat logits target of
        Inl e \<Rightarrow> Inl e
      | Inr (loss, ce, lat_loss, acc) \<Rightarrow>
          Inr ((loss, ce, lat_loss, acc),
               net \<lparr> fb_batch_size := Some batch_size, fb_ce := Some ce,
                     fb_lat_loss := Some lat_loss, fb_loss := Some loss,
                     fb_acc := Some acc \<rparr>)))"

section \<open>A small network\<close>

text \<open>
  A network with a one-block input stem, one searchable layer of two candidates, a
  one-block output stem and a two-class classifier on one feature; its latency row has
  one value more than the layer has candidates. Every block is the identity.
\<close>

definition example_net :: fbnet where
  "example_net = \<lparr> fb_alpha = 0.2, fb_beta = 0.6, fb_theta = [[0, 0]],
     fb_ops = [[id, id]], fb_blocks = [Module id, Group [id, id], Module id],
     fb_input_conv = [id], fb_input_conv_count = 1, fb_output_conv = [id],
     fb_speed = [''1.0 3.0 9.0''],
     fb_classifier = \<lparr> in_features = 1, lin_weight = [[1], [0]], lin_bias = [0, 0] \<rparr>,
     fb_batch_size = None, fb_ce = None, fb_lat_loss = None, fb_loss = None, fb_acc = None \<rparr>"

section \<open>The Trainer\<close>

text \<open>
  Modelled from the spec: the class \<open>AvgrageMeter\<close> of \<open>utils.py\<close> is not among the
  sources. The spec describes a running metric as an accumulator (sum, count) of a
  tracked quantity that is updated with every value and can be reset to empty.
\<close>

record meter =
  m_sum :: real
  m_cnt :: nat

definition meter_empty :: meter where
  "meter_empty = \<lparr> m_sum = 0, m_cnt = 0 \<rparr>"

definition meter_update :: "meter \<Rightarrow> real \<Rightarrow> meter" where
  "meter_update m v = \<lparr> m_sum = m_sum m + v, m_cnt = Suc (m_cnt m) \<rparr>"

text \<open>
  What the logger receives, and the calls that \<open>search\<close> makes, in order. The trace of
  a trainer records both. The learning-rate scheduler (\<open>CosineDecayLR\<close> of \<open>utils.py\<close>,
  not among the sources) appears through the calls of its \<open>step\<close> only.
\<close>

datatype log_line =
    Start_w int
  | Start_theta int
  | Change_temperature real real
  | Status int nat real meter meter meter meter

datatype call =
    Train_w tensor "int list"
  | Train_t tensor "int list"
  | Sche_step
  | Save_theta string
  | Decay_temperature
  | Info log_line

text \<open>
  The attributes of a \<open>Trainer\<close>, the files written so far, the trace, and the numbers of
  training steps done and of \<open>time.time()\<close> readings taken. \<open>tic\<close> is unset until
  \<open>search\<close> sets it.
\<close>

record trainer =
  tr_mod :: fbnet
  tr_temp :: real
  tr_tem_decay :: real
  tr_save_theta_prefix :: string
  tr_acc_avg :: meter
  tr_ce_avg :: meter
  tr_lat_avg :: meter
  tr_loss_avg :: meter
  tr_tic :: "real option"
  tr_toc :: "real option"
  tr_files :: "string \<rightharpoonup> string"
  tr_trace :: "call list"
  tr_steps :: nat
  tr_clock :: nat

text \<open>
  What the trainer takes from outside: the readings of the clock, the Gumbel noise of
  every forward call, the updates the two optimizers make to the blocks, the classifier
  and the theta values in a training step, the text \<open>str\<close> gives for a theta value, and
  the paths that can be opened for writing.
\<close>

record env =
  e_time :: "nat \<Rightarrow> real"
  e_gumbel :: "nat \<Rightarrow> nat \<Rightarrow> nat \<Rightarrow> nat \<Rightarrow> real"
  e_w_block :: "nat \<Rightarrow> block \<Rightarrow> block"
  e_w_linear :: "nat \<Rightarrow> linear \<Rightarrow> linear"
  e_t_update :: "nat \<Rightarrow> nat \<Rightarrow> nat \<Rightarrow> real \<Rightarrow> real"
  e_str :: "real \<Rightarrow> string"
  e_writable :: "string \<Rightarrow> bool"

fun map_entry :: "(block \<Rightarrow> block) \<Rightarrow> entry \<Rightarrow> entry" where
  "map_entry u (Module f) = Module (u f)"
| "map_entry u (Group fs) = Group (map u fs)"
| "map_entry u Other = Other"

text \<open>\<open>w_opt.step()\<close> changes the parameters of the blocks and of the classifier.\<close>

definition w_opt_step :: "env \<Rightarrow> nat \<Rightarrow> fbnet \<Rightarrow> fbnet" where
  "w_opt_step env k net =
     net \<lparr> fb_ops := map (map (e_w_block env k)) (fb_ops net),
           fb_blocks := map (map_entry (e_w_block env k)) (fb_blocks net),
           fb_input_conv := map (e_w_block env k) (fb_input_conv net),
           fb_output_conv := map (e_w_block env k) (fb_output_conv net),
           fb_classifier := (e_w_linear env k (fb_classifier net))
              \<lparr> in_features := in_features (fb_classifier net) \<rparr> \<rparr>"



text \<open>
  Modelled from the spec: the wrapper \<open>DataParallel\<close> of \<open>data_parallel.py\<close> is not among
  the sources. The spec describes it as an internal replication detail of the update step,
  so calling the wrapped network is modelled as calling \<open>FBNet.forward\<close>.

  \<open>train_w\<close> and \<open>train_t\<close>: a forward call at the trainer's temperature, the backward
  pass and the step of one optimizer, then the optional decay.
\<close>

definition train_w ::
  "env \<Rightarrow> trainer \<Rightarrow> tensor \<Rightarrow> int list \<Rightarrow> bool
    \<Rightarrow> error + (real \<times> real \<times> real \<times> real) \<times> trainer" where
  "train_w env tr input target decay =
     (case forward (tr_mod tr) input target (Some (tr_temp tr)) None
             (e_gumbel env (tr_steps tr)) of
        Inl e \<Rightarrow> Inl e
      | Inr (r, net') \<Rightarrow>
          (let tr1 = tr \<lparr> tr_mod := w_opt_step env (tr_steps tr) net',
                          tr_steps := Suc (tr_steps tr),
                          tr_trace := tr_trace tr @ [Train_w input target] \<rparr>
           in Inr (r, if decay
                      then tr1 \<lparr> tr_temp := tr_temp tr1 * tr_tem_decay tr1,
                                tr_trace := tr_trace tr1 @
                                  [Info (Change_temperature (tr_temp tr1)
                                           (tr_temp tr1 * tr_tem_decay tr1))] \<rparr>
                      else tr1)))"


text \<open>
  \<open>_step\<close>. \<open>func\<close> is one of the two training functions, called without decay. The four
  meters are updated; when \<open>step > 1 and step % log_frequence == 0\<close> the clock is read, the
  throughput computed and the status line logged. The statement that follows,
  \<open>map(lambda avg: avg.reset(), [...])\<close>, builds an iterator that nothing consumes (in
  Python 3 \<open>map\<close> is lazy), so no \<open>reset\<close> is ever called and the meters stay as they
  are; then the clock is read into \<open>tic\<close>.
\<close>

definition step' ::
  "env \<Rightarrow> trainer \<Rightarrow> tensor \<Rightarrow> int list \<Rightarrow> int \<Rightarrow> nat \<Rightarrow> int
    \<Rightarrow> (env \<Rightarrow> trainer \<Rightarrow> tensor \<Rightarrow> int list \<Rightarrow> bool
          \<Rightarrow> error + (real \<times> real \<times> real \<times> real) \<times> trainer)
    \<Rightarrow> error + trainer" where
  "step' env tr input target epoch step log_frequence func =
     (case func env tr input target False of
        Inl e \<Rightarrow> Inl e
      | Inr ((loss, ce, lat, acc), tr1) \<Rightarrow>
     (case fb_batch_size (tr_mod tr1) of
        None \<Rightarrow> Inl AttributeError
      | Some batch_size \<Rightarrow>
     (let tr2 = tr1 \<lparr> tr_acc_avg := meter_update (tr_acc_avg tr1) acc,
                      tr_ce_avg := meter_update (tr_ce_avg tr1) ce,
                      tr_lat_avg := meter_update (tr_lat_avg tr1) lat,
                      tr_loss_avg := meter_update (tr_loss_avg tr1) loss \<rparr>
      in if 1 < step
         then (if log_frequence = 0 then Inl ZeroDivisionError
               else if int step mod log_frequence = 0
               then (let toc = e_time env (tr_clock tr2) in
                     case tr_tic tr2 of
                       None \<Rightarrow> Inl AttributeError
                     | Some tic \<Rightarrow>
                         if toc - tic = 0 then Inl ZeroDivisionError
                         else let speed = 1.0 * (real batch_size * real_of_int log_frequence)
                                            / (toc - tic)
                              in Inr (tr2 \<lparr> tr_toc := Some toc,
                                            tr_trace := tr_trace tr2 @
                                              [Info (Status epoch step speed (tr_loss_avg tr2)
                                                 (tr_acc_avg tr2) (tr_ce_avg tr2) (tr_lat_avg tr2))],
                                            tr_tic := Some (e_time env (Suc (tr_clock tr2))),
                                            tr_clock := Suc (Suc (tr_clock tr2)) \<rparr>))
               else Inr tr2)
         else Inr tr2)))"



fun py_join :: "string \<Rightarrow> string list \<Rightarrow> string" where
  "py_join sep [] = []"
| "py_join sep [x] = x"
| "py_join sep (x # y # ys) = x @ sep @ py_join sep (y # ys)"

text \<open>
  \<open>save_theta\<close>: the file is opened for writing (which can fail), one line per theta
  vector is written, and the list of the vectors' values is returned.
\<close>

definition theta_line :: "env \<Rightarrow> real list \<Rightarrow> string" where
  "theta_line env t = py_join '' '' (map (e_str env) t) @ [CHR 0x0A]"

definition save_theta :: "env \<Rightarrow> trainer \<Rightarrow> string \<Rightarrow> error + real list list \<times> trainer" where
  "save_theta env tr save_path =
     (if \<not> e_writable env save_path then Inl FileNotFoundError
      else Inr (fb_theta (tr_mod tr),
                tr \<lparr> tr_files := (tr_files tr)
                        (save_path \<mapsto> concat (map (theta_line env) (fb_theta (tr_mod tr)))),
                     tr_trace := tr_trace tr @ [Save_theta save_path] \<rparr>))"








text \<open>
  Reading a text file back: \<open>readlines\<close> cuts after every newline, and \<open>str.split()\<close>
  without argument yields the maximal runs of characters that are not white space.
\<close>

fun readlines_from :: "string \<Rightarrow> string \<Rightarrow> string list" where
  "readlines_from cur [] = (if cur = [] then [] else [rev cur])"
| "readlines_from cur (c # cs) =
     (if c = CHR 0x0A then rev (c # cur) # readlines_from [] cs
      else readlines_from (c # cur) cs)"

definition readlines :: "string \<Rightarrow> string list" where
  "readlines s = readlines_from [] s"

fun split_ws_from :: "string \<Rightarrow> string \<Rightarrow> string list" where
  "split_ws_from cur [] = (if cur = [] then [] else [rev cur])"
| "split_ws_from cur (c # cs) =
     (if is_space c then (if cur = [] then split_ws_from [] cs
                          else rev cur # split_ws_from [] cs)
      else split_ws_from (c # cur) cs)"

definition split_ws :: "string \<Rightarrow> string list" where
  "split_ws s = split_ws_from [] s"

section \<open>The sequence of calls of a search\<close>

text \<open>The calls of a trace, without what went to the logger.\<close>

fun is_info :: "call \<Rightarrow> bool" where
  "is_info (Info l) = True"
| "is_info c = False"

definition calls_of :: "call list \<Rightarrow> call list" where
  "calls_of cs = filter (\<lambda>c. \<not> is_info c) cs"




section \<open>A small trainer\<close>

text \<open>
  A trainer of the small network at temperature 1 with empty meters, and an outside world
  whose clock advances by one at every reading, whose Gumbel noise is zero, whose
  optimizers leave every parameter as it is and in which every path can be written.
\<close>

definition example_trainer :: trainer where
  "example_trainer = \<lparr> tr_mod = example_net, tr_temp = 1, tr_tem_decay = 0.965,
     tr_save_theta_prefix = ''run'',
     tr_acc_avg = meter_empty, tr_ce_avg = meter_empty, tr_lat_avg = meter_empty,
     tr_loss_avg = meter_empty, tr_tic = Some 0, tr_toc = None, tr_files = Map.empty,
     tr_trace = [], tr_steps = 0, tr_clock = 1 \<rparr>"

definition example_env :: env where
  "example_env = \<lparr> e_time = real, e_gumbel = (\<lambda>k l b i. 0), e_w_block = (\<lambda>k f. f),
     e_w_linear = (\<lambda>k c. c), e_t_update = (\<lambda>k l i v. v), e_str = (\<lambda>v. ''1.0''),
     e_writable = (\<lambda>p. True) \<rparr>"

text \<open>
  The objects that differ from the small network at most in the attributes a forward
  call stores, and the trainers of such an object whose temperature and decay are not
  zero.
\<close>

definition ex_like :: "fbnet \<Rightarrow> bool" where
  "ex_like net = (\<exists>a b c d e. net = example_net \<lparr> fb_batch_size := a, fb_ce := b,
                     fb_lat_loss := c, fb_loss := d, fb_acc := e \<rparr>)"


section \<open>The expected latency of a layer\<close>


section \<open>Shapes and entries of tensors\<close>

text \<open>
  The shape of a tensor (the sizes along its axes), the valid index tuples and the entry
  at an index tuple.
\<close>

definition shape :: "tensor \<Rightarrow> nat list list list" where
  "shape t = map (map (map length)) t"

definition inb :: "tensor \<Rightarrow> nat \<Rightarrow> nat \<Rightarrow> nat \<Rightarrow> nat \<Rightarrow> bool" where
  "inb t b c h w = (b < length t \<and> c < length (t ! b) \<and> h < length (t ! b ! c)
                    \<and> w < length (t ! b ! c ! h))"

definition elem :: "tensor \<Rightarrow> nat \<Rightarrow> nat \<Rightarrow> nat \<Rightarrow> nat \<Rightarrow> real" where
  "elem t b c h w = t ! b ! c ! h ! w"

text \<open>
  The weight vector of example \<open>b\<close>: its row of the weight matrix, or the only row when
  a single weight vector is given for the whole batch.
\<close>

definition wsel :: "real list list \<Rightarrow> nat \<Rightarrow> real list" where
  "wsel weights b = weights ! (if length weights = 1 then 0 else b)"

text \<open>
  A tensor whose examples are multiplied by the entries of a vector, and the
  entry-by-entry sum of two tensors.
\<close>

definition scaled :: "real list \<Rightarrow> tensor \<Rightarrow> tensor" where
  "scaled wcol r = map (\<lambda>(b, ex). map (map (map (\<lambda>a. wcol ! (if length wcol = 1 then 0 else b) * a))) ex)
                     (enumerate 0 r)"

definition plus4 :: "tensor \<Rightarrow> tensor \<Rightarrow> tensor" where
  "plus4 s t = map (\<lambda>(x, y). map (\<lambda>(x, y). map (\<lambda>(x, y). map (\<lambda>(a, b). a + b) (zip x y)) (zip x y))
                     (zip x y)) (zip s t)"

section \<open>The autograd history of a forward call\<close>

text \<open>
  The value model above does not show which tensors torch can differentiate with respect
  to the architecture parameters: that depends on the history autograd records with
  every tensor. Here the same lines of \<open>forward\<close> are read for that history alone. The
  history of a tensor is the set of searchable layers whose theta vector (the stored one
  or the entry of \<open>theta_list\<close>) it was computed from by differentiable operations;
  \<open>backward\<close> reaches a theta vector from the loss exactly when it is in the history of
  the loss.

  In the loop, \<open>theta.repeat\<close>, \<open>gumbel_softmax\<close>, the product with the latency row (a
  new tensor, without history) and \<open>torch.sum\<close> keep the history of theta; the mixed
  operation joins the history of the weights to that of the data.
\<close>

fun layers_history ::
  "entry list \<Rightarrow> nat \<Rightarrow> nat set list \<Rightarrow> nat set \<Rightarrow> nat \<times> nat set list \<times> nat set" where
  "layers_history [] theta_idx lat data = (theta_idx, lat, data)"
| "layers_history (Group block # rest) theta_idx lat data =
     (let theta = {theta_idx};
          t = theta;
          weight = t;
          speed = {};
          lat' = weight \<union> speed
      in layers_history rest (Suc theta_idx) (lat @ [lat']) (data \<union> weight))"
| "layers_history (b # rest) theta_idx lat data = (theta_idx, lat, data)"

text \<open>
  After the loop, line 110 builds \<open>torch.tensor(lat)\<close>: a new tensor that holds copies of
  the values of the list and has no history (unlike \<open>torch.stack(lat)\<close>, which would
  have the union of the histories of its elements). The latency loss is computed from
  that tensor; the cross-entropy is computed from the data. The result is the histories
  of the returned loss, cross-entropy and latency loss, and those of the layer latencies
  in the list \<open>lat\<close> of the loop.
\<close>

definition forward_history :: "fbnet \<Rightarrow> (nat set \<times> nat set \<times> nat set) \<times> nat set list" where
  "forward_history net =
     (let data = {};
          (theta_idx, lat, data1) =
             layers_history (drop (fb_input_conv_count net) (fb_blocks net)) 0 [] data;
          lat_tensor = {};
          logits = data1;
          ce = logits;
          lat_loss = lat_tensor;
          loss = ce \<union> lat_loss
      in ((loss, ce, lat_loss), lat))"

section \<open>Construction-time contract\<close>

lemma length_groups_of: "length (groups_of bs) = length (filter is_group bs)"
  by (induction bs rule: groups_of.induct) simp_all

text \<open>
  C5. Constructing the network succeeds exactly when the blocks sequence holds 22
  candidate groups (elements that are lists) and the latency file can be read; with any
  other number of groups, 21 among them, construction fails the assertion.
\<close>

theorem init_requires_22_groups:
  "((\<exists>net. init num_classes blocks init_theta speed_f alpha beta w0 b0 = Inr net)
      \<longleftrightarrow> length (filter is_group blocks) = 22 \<and> speed_f \<noteq> None)
   \<and> (length (filter is_group blocks) \<noteq> 22
      \<longrightarrow> init num_classes blocks init_theta speed_f alpha beta w0 b0 = Inl AssertionError)"
  by (auto simp: init_def Let_def length_groups_of split: if_splits option.splits)

theorem init_requires_22_groups_witness:
  "init 10 (replicate 21 (Group [])) 1 (Some []) 0.2 0.6 [] [] = Inl AssertionError
   \<and> (\<exists>net. init 10 (replicate 22 (Group [])) 1 (Some []) 0.2 0.6 [] [] = Inr net)"
  using init_requires_22_groups [of 10 "replicate 21 (Group [])" 1 "Some []" "0.2" "0.6" "[]" "[]"]
        init_requires_22_groups [of 10 "replicate 22 (Group [])" 1 "Some []" "0.2" "0.6" "[]" "[]"]
  by simp

section \<open>The loop over the searchable layers\<close>

lemma layer_length_lat:
  "layer net B tau thl g n idx lat data = Inr (lat', data') \<Longrightarrow> length lat' = Suc (length lat)"
  by (auto simp: layer_def split: sum.splits option.splits)

lemma layers_stop:
  "list_all is_group pre \<Longrightarrow> \<not> is_group b \<Longrightarrow>
   layers net B tau thl g (pre @ b # rest) idx lat data = layers net B tau thl g pre idx lat data"
proof (induction pre arbitrary: idx lat data)
  case Nil
  then show ?case by (cases b) simp_all
next
  case (Cons a pre)
  then show ?case by (cases a) (auto split: sum.splits)
qed

lemma layers_count:
  "list_all is_group pre \<Longrightarrow> layers net B tau thl g pre idx lat data = Inr (idx', lat', data') \<Longrightarrow>
   idx' = idx + length pre \<and> length lat' = length lat + length pre"
proof (induction pre arbitrary: idx lat data)
  case Nil
  then show ?case by simp
next
  case (Cons a pre)
  then obtain blk where a: "a = Group blk" by (cases a) simp_all
  from Cons.prems(2) obtain lat1 data1 where
    l: "layer net B tau thl g (length blk) idx lat data = Inr (lat1, data1)" and
    r: "layers net B tau thl g pre (Suc idx) lat1 data1 = Inr (idx', lat', data')"
    by (auto simp: a split: sum.splits)
  from Cons.IH[OF _ r] Cons.prems(1) layer_length_lat[OF l] show ?case by simp
qed

lemma filter_groups_drop_stem:
  "filter is_group (drop (length (leading_modules bs)) bs) = filter is_group bs"
  by (induction bs rule: leading_modules.induct) simp_all

lemma init_fields:
  "init num_classes blocks init_theta speed_f alpha beta w0 b0 = Inr net \<Longrightarrow>
   fb_blocks net = blocks \<and> fb_input_conv_count net = length (leading_modules blocks)
   \<and> length (filter is_group blocks) = 22"
  by (auto simp: init_def Let_def length_groups_of split: if_splits option.splits)

lemma layer_empty_group:
  "fb_theta net = [] # ths \<Longrightarrow> fb_speed net = [] # sp \<Longrightarrow> fb_ops net = [] # os \<Longrightarrow>
   layer net (Suc 0) 1 None g 0 0 [] data = Inr ([0], Num 0)"
  by (simp add: layer_def nth_res_def gumbel_softmax_def softmax_def py_strip_def
        mul2_def bcast_def MixedOp_forward_def)

text \<open>
  C10. The loop of \<open>forward\<close> runs over the elements after the input stem and ends at
  the first one that is not a list. When the elements after the stem are the candidate
  groups \<open>pre\<close>, then an element \<open>b\<close> that is not a list, then \<open>rest\<close>, the loop does
  exactly what it does on \<open>pre\<close> alone: it applies \<open>length pre\<close> mixed operations and
  accumulates \<open>length pre\<close> latencies, without raising on account of \<open>rest\<close>. The groups
  of \<open>rest\<close> were nevertheless counted by the constructor: together with \<open>pre\<close> they are
  the 22 groups its assertion demands.
\<close>

theorem forward_skips_groups_after_fixed_block:
  assumes "init num_classes blocks init_theta speed_f alpha beta w0 b0 = Inr net"
      and "drop (fb_input_conv_count net) blocks = pre @ b # rest"
      and "list_all is_group pre" and "\<not> is_group b"
  shows "layers net B tau thl g (drop (fb_input_conv_count net) (fb_blocks net)) 0 [] data
           = layers net B tau thl g pre 0 [] data
       \<and> (\<forall>idx lat data'. layers net B tau thl g pre 0 [] data = Inr (idx, lat, data')
             \<longrightarrow> idx = length pre \<and> length lat = length pre)
       \<and> length pre + length (filter is_group rest) = 22"
proof -
  note f = init_fields[OF assms(1)]
  have "filter is_group (pre @ b # rest) = filter is_group blocks"
    using filter_groups_drop_stem[of blocks] f assms(2) by simp
  then have "length (filter is_group pre) + length (filter is_group rest) = 22"
    using f assms(4) by (metis filter.simps(2) filter_append length_append)
  moreover have "filter is_group pre = pre"
    using assms(3) by (simp add: list_all_iff)
  ultimately have c: "length pre + length (filter is_group rest) = 22" by simp
  have a: "layers net B tau thl g (drop (fb_input_conv_count net) (fb_blocks net)) 0 [] data
           = layers net B tau thl g pre 0 [] data"
    using layers_stop[OF assms(3,4)] f assms(2) by simp
  show ?thesis using a c layers_count[OF assms(3), of net B tau thl g 0 "[]" data] by auto
qed

theorem forward_skips_groups_after_fixed_block_witness:
  "\<exists>net. init 10 (Module id # Group [] # Module id # replicate 21 (Group [])) 1 (Some [[]])
             0.2 0.6 [] [] = Inr net
     \<and> layers net 1 1 None (\<lambda>l b i. 0) (drop (fb_input_conv_count net) (fb_blocks net)) 0 []
          (Ten [[[[0]]]]) = Inr (1, [0], Num 0)
     \<and> length [Group []] + length (filter is_group (replicate 21 (Group []))) = 22"
proof -
  let ?bs = "Module id # Group [] # Module id # replicate 21 (Group [])"
  obtain net where n: "init 10 ?bs 1 (Some [[]]) 0.2 0.6 [] [] = Inr net"
    by (simp add: init_def Let_def length_groups_of)
  have d: "drop (fb_input_conv_count net) ?bs = [Group []] @ Module id # replicate 21 (Group [])"
    using init_fields[OF n] by simp
  obtain ths os where fs: "fb_theta net = [] # ths" "fb_speed net = [[]]" "fb_ops net = [] # os"
    using n by (auto simp: init_def Let_def split: if_splits)
  have l: "layers net 1 1 None (\<lambda>l b i. 0) [Group []] 0 [] (Ten [[[[0]]]]) = Inr (1, [0], Num 0)"
    using layer_empty_group[OF fs(1) fs(2) fs(3)] by simp
  show ?thesis
    using forward_skips_groups_after_fixed_block[OF n d, of 1 1 None "\<lambda>l b i. 0" "Ten [[[[0]]]]"] l n
    by auto
qed

section \<open>The frame of a forward call with a supplied theta list\<close>







subsection \<open>The small network, evaluated\<close>

lemma ex_fields:
  assumes "ex_like net"
  shows "fb_alpha net = 1/5" "fb_beta net = 3/5" "fb_theta net = [[0, 0]]"
    "fb_ops net = [[id, id]]" "fb_blocks net = [Module id, Group [id, id], Module id]"
    "fb_input_conv net = [id]" "fb_input_conv_count net = Suc 0"
    "fb_output_conv net = [id]" "fb_speed net = [''1.0 3.0 9.0'']"
    "fb_classifier net = \<lparr> in_features = 1, lin_weight = [[1], [0]], lin_bias = [0, 0] \<rparr>"
  using assms by (auto simp: ex_like_def example_net_def)

lemma ex_like_example: "ex_like example_net"
  unfolding ex_like_def
  by (rule exI[of _ None], rule exI[of _ None], rule exI[of _ None], rule exI[of _ None],
      rule exI[of _ None]) (simp add: example_net_def)

lemma ex_like_stored:
  "ex_like net \<Longrightarrow> ex_like (net\<lparr>fb_batch_size := a, fb_ce := b, fb_lat_loss := c,
                                 fb_loss := d, fb_acc := e\<rparr>)"
  unfolding ex_like_def by (elim exE) (simp, intro exI, rule refl)

lemma ex_speed:
  "map_res py_float (take (Suc (Suc 0)) (split_on CHR '' '' (py_strip ''1.0 3.0 9.0''))) = Inr [1, 3]"
  by (simp add: py_float_def py_strip_def is_space_def is_digit_def nat_of_digits_def
        digit_val_def Let_def)

lemma ex_weights:
  "tau \<noteq> 0 \<Longrightarrow> gumbel_softmax (replicate (Suc 0) [0, 0]) tau (\<lambda>b i. 0) = Inr [[1/2, 1/2]]"
  by (simp add: gumbel_softmax_def softmax_def enumerate_eq_zip)

lemma ex_mul2: "mul2 [[1/2, 1/2]] (replicate (Suc 0) [1, 3]) = Inr [[1/2, 3/2]]"
  by (simp add: mul2_def bcast_def mul0_def)

lemma ex_mixed: "MixedOp_forward [id, id] (Ten [[[[0]]]]) [[1/2, 1/2]] = Inr (Ten [[[[0]]]])"
  by (simp add: MixedOp_forward_def column_def reshape_col_def mul4_def bcast_def mul0_def
        add4_def add0_def)

lemma ex_layer:
  assumes "ex_like net" and "tau \<noteq> 0" and "thl = None \<or> thl = Some [[0, 0]]"
  shows "layer net (Suc 0) tau thl (\<lambda>l b i. 0) (Suc (Suc 0)) 0 [] (Ten [[[[0]]]])
           = Inr ([2], Ten [[[[0]]]])"
  using assms(3) ex_speed ex_weights[OF assms(2)] ex_mul2 ex_mixed
  by (auto simp: layer_def ex_fields[OF assms(1)] nth_res_def)

lemma ex_logits:
  assumes "ex_like net" and "tau \<noteq> 0" and "thl = None \<or> thl = Some [[0, 0]]"
  shows "forward_logits net [[[[0]]]] tau thl (\<lambda>l b i. 0) = Inr ([2], [[0, 0]])"
  using ex_layer[OF assms]
  by (simp add: forward_logits_def ex_fields[OF assms(1)] avg_pool_all_def reshape_rows_def
        linear_apply_def)

lemma ex_metrics:
  "metrics (1/5) (3/5) 1 [2] [[0, 0]] [0] = Inr (ln 2 + (1/5) * 2 powr (3/5), ln 2, 2, 1)"
  by (simp add: metrics_def CrossEntropyLoss_def example_ce_def torch_pow_def argmax_def)

lemma ex_forward:
  assumes "ex_like net" and "tau \<noteq> 0" and "thl = None \<or> thl = Some [[0, 0]]"
  shows "forward net [[[[0]]]] [0] (Some tau) thl (\<lambda>l b i. 0)
    = Inr ((ln 2 + (1/5) * 2 powr (3/5), ln 2, 2, 1),
           net\<lparr>fb_batch_size := Some 1, fb_ce := Some (ln 2), fb_lat_loss := Some 2,
              fb_loss := Some (ln 2 + (1/5) * 2 powr (3/5)), fb_acc := Some 1\<rparr>)"
  using ex_logits[OF assms] ex_metrics
  by (simp add: forward_def ex_fields[OF assms(1)])



section \<open>Saving theta\<close>

lemma readlines_from_line:
  "CHR 0x0A \<notin> set l \<Longrightarrow>
   readlines_from cur (l @ CHR 0x0A # rest) = (rev cur @ l @ [CHR 0x0A]) # readlines_from [] rest"
  by (induction l arbitrary: cur) auto

lemma readlines_concat:
  "\<forall>l\<in>set ls. CHR 0x0A \<notin> set l \<Longrightarrow>
   readlines_from [] (concat (map (\<lambda>l. l @ [CHR 0x0A]) ls)) = map (\<lambda>l. l @ [CHR 0x0A]) ls"
proof (induction ls)
  case Nil
  then show ?case by simp
next
  case (Cons l ls)
  then show ?case using readlines_from_line[of l "[]"] by simp
qed

lemma split_ws_from_token:
  "\<forall>c\<in>set tok. \<not> is_space c \<Longrightarrow>
   split_ws_from cur (tok @ rest) = split_ws_from (rev tok @ cur) rest"
  by (induction tok arbitrary: cur) auto

lemma is_space_simps: "is_space CHR '' ''" "is_space CHR 0x0A"
  by (simp_all add: is_space_def)

lemma split_ws_join:
  "\<forall>t\<in>set toks. t \<noteq> [] \<and> (\<forall>c\<in>set t. \<not> is_space c) \<Longrightarrow>
   split_ws_from [] (py_join '' '' toks @ [CHR 0x0A]) = toks"
proof (induction "'' ''" toks rule: py_join.induct)
  case 1
  then show ?case by (simp add: is_space_simps)
next
  case (2 x)
  then show ?case using split_ws_from_token[of x "[]" "[CHR 0x0A]"] by (simp add: is_space_simps)
next
  case (3 x y ys)
  then show ?case
    using split_ws_from_token[of x "[]" "'' '' @ py_join '' '' (y # ys) @ [CHR 0x0A]"]
    by (simp add: is_space_simps)
qed

lemma join_no_newline:
  "\<forall>t\<in>set toks. \<forall>c\<in>set t. \<not> is_space c \<Longrightarrow> CHR 0x0A \<notin> set (py_join '' '' toks)"
  by (induction "'' ''" toks rule: py_join.induct) (auto simp: is_space_simps)

text \<open>
  C8. \<open>save_theta\<close> returns the list of the theta vectors and writes, in the order of the
  vectors, one line per vector holding the texts of its values separated by single
  spaces. Read back, the file has as many lines as there are vectors, and the tokens of
  every line are the texts of the values of its vector, so their number is the length
  of the vector. (The text \<open>str\<close> gives for a number is not empty and has no white space.)
\<close>

theorem save_theta_lines:
  assumes "save_theta env tr save_path = Inr (res, tr')"
      and "\<forall>v. e_str env v \<noteq> [] \<and> (\<forall>c\<in>set (e_str env v). \<not> is_space c)"
  shows "res = fb_theta (tr_mod tr)
       \<and> (\<exists>content. tr_files tr' save_path = Some content
            \<and> readlines content = map (theta_line env) (fb_theta (tr_mod tr))
            \<and> length (readlines content) = length (fb_theta (tr_mod tr))
            \<and> map split_ws (readlines content) = map (map (e_str env)) (fb_theta (tr_mod tr))
            \<and> map (length \<circ> split_ws) (readlines content) = map length (fb_theta (tr_mod tr)))"
proof -
  let ?th = "fb_theta (tr_mod tr)"
  let ?content = "concat (map (theta_line env) ?th)"
  from assms(1) have r: "res = ?th" and f: "tr_files tr' save_path = Some ?content"
    by (auto simp: save_theta_def split: if_splits)
  have nl: "\<forall>l\<in>set (map (\<lambda>t. py_join '' '' (map (e_str env) t)) ?th). CHR 0x0A \<notin> set l"
  proof
    fix l assume "l \<in> set (map (\<lambda>t. py_join '' '' (map (e_str env) t)) ?th)"
    then obtain t where l: "l = py_join '' '' (map (e_str env) t)" by auto
    have "\<forall>x\<in>set (map (e_str env) t). \<forall>c\<in>set x. \<not> is_space c"
    proof
      fix x assume "x \<in> set (map (e_str env) t)"
      then obtain v where "x = e_str env v" by auto
      then show "\<forall>c\<in>set x. \<not> is_space c" using assms(2) by simp
    qed
    then show "CHR 0x0A \<notin> set l" unfolding l by (rule join_no_newline)
  qed
  have c: "?content = concat (map (\<lambda>l. l @ [CHR 0x0A]) (map (\<lambda>t. py_join '' '' (map (e_str env) t)) ?th))"
    by (simp add: theta_line_def[abs_def] comp_def)
  have rl: "readlines ?content = map (theta_line env) ?th"
    unfolding readlines_def c using readlines_concat[OF nl] by (simp add: theta_line_def[abs_def] comp_def)
  have sw: "map split_ws (map (theta_line env) ?th) = map (map (e_str env)) ?th"
  proof -
    have "split_ws (theta_line env t) = map (e_str env) t" for t
      unfolding split_ws_def theta_line_def
    proof (rule split_ws_join, rule ballI)
      fix x assume "x \<in> set (map (e_str env) t)"
      then obtain v where "x = e_str env v" by auto
      then show "x \<noteq> [] \<and> (\<forall>c\<in>set x. \<not> is_space c)" using assms(2) by simp
    qed
    then show ?thesis by simp
  qed
  have ln: "map (length \<circ> split_ws) (map (theta_line env) ?th) = map length ?th"
  proof -
    have "map (length \<circ> split_ws) (map (theta_line env) ?th)
          = map length (map split_ws (map (theta_line env) ?th))" by simp
    also have "\<dots> = map length (map (map (e_str env)) ?th)" by (simp only: sw)
    also have "\<dots> = map length ?th" by (simp add: comp_def)
    finally show ?thesis .
  qed
  show ?thesis using r f rl sw ln by simp
qed


theorem save_theta_lines_witness:
  "(\<forall>v. e_str example_env v \<noteq> [] \<and> (\<forall>c\<in>set (e_str example_env v). \<not> is_space c))
   \<and> (\<exists>tr'. save_theta example_env example_trainer ''theta.txt'' = Inr ([[0, 0]], tr')
          \<and> (\<exists>content. tr_files tr' ''theta.txt'' = Some content
                \<and> length (readlines content) = 1
                \<and> map split_ws (readlines content) = [[''1.0'', ''1.0'']]))"
proof -
  have h: "\<forall>v. e_str example_env v \<noteq> [] \<and> (\<forall>c\<in>set (e_str example_env v). \<not> is_space c)"
    by (simp add: example_env_def is_space_def)
  obtain tr' where s: "save_theta example_env example_trainer ''theta.txt'' = Inr ([[0, 0]], tr')"
    by (simp add: save_theta_def example_env_def example_trainer_def example_net_def)
  have t: "fb_theta (tr_mod example_trainer) = [[0, 0]]"
    by (simp add: example_trainer_def example_net_def)
  have e: "map (map (e_str example_env)) [[0, 0]] = [[''1.0'', ''1.0'']]"
    by (simp add: example_env_def)
  show ?thesis using save_theta_lines[OF s h] h s t e by auto
qed

section \<open>The sequence of calls of \<open>search\<close>\<close>

lemma calls_of_append [simp]: "calls_of (xs @ ys) = calls_of xs @ calls_of ys"
  by (simp add: calls_of_def)









subsection \<open>A search of the small trainer succeeds\<close>

lemma ex_w_opt: "ex_like net \<Longrightarrow> w_opt_step example_env k net = net"
  by (auto simp: ex_like_def example_net_def w_opt_step_def example_env_def)













section \<open>The running averages at a flush\<close>

lemma ex_train_w_value:
  "train_w example_env example_trainer [[[[0]]]] [0] False =
     Inr ((ln 2 + (1/5) * 2 powr (3/5), ln 2, 2, 1),
          example_trainer\<lparr>tr_mod := example_net\<lparr>fb_batch_size := Some 1, fb_ce := Some (ln 2),
               fb_lat_loss := Some 2, fb_loss := Some (ln 2 + (1/5) * 2 powr (3/5)),
               fb_acc := Some 1\<rparr>,
             tr_steps := Suc 0, tr_trace := [Train_w [[[[0]]]] [0]]\<rparr>)"
proof -
  let ?n = "example_net\<lparr>fb_batch_size := Some 1, fb_ce := Some (ln 2), fb_lat_loss := Some 2,
              fb_loss := Some (ln 2 + (1/5) * 2 powr (3/5)), fb_acc := Some 1\<rparr>"
  have f: "forward (tr_mod example_trainer) [[[[0]]]] [0] (Some (tr_temp example_trainer)) None
             (e_gumbel example_env (tr_steps example_trainer))
           = Inr ((ln 2 + (1/5) * 2 powr (3/5), ln 2, 2, 1), ?n)"
    using ex_forward[OF ex_like_example, of 1 None]
    by (simp add: example_env_def example_trainer_def)
  have n: "ex_like ?n" by (rule ex_like_stored[OF ex_like_example])
  show ?thesis using f ex_w_opt[OF n]
    by (simp add: train_w_def Let_def) (simp add: example_trainer_def)
qed

text \<open>
  C4. The spec has the four running averages flushed to the log and then reset at every
  step whose number exceeds 1 and is a multiple of \<open>log_frequence\<close>. The code logs the
  status line there but does not reset: on the small trainer with empty meters, step
  number 2 with \<open>log_frequence = 2\<close> returns after the training call and the status line,
  and each of the four meters still holds the value of the step.
\<close>

theorem step_flush_keeps_meters:
  "map_sum id
     (\<lambda>tr'. (map (\<lambda>c. case c of Info (Status e s v l a c t) \<Rightarrow> True | _ \<Rightarrow> False) (tr_trace tr'),
             tr_loss_avg tr', tr_ce_avg tr', tr_lat_avg tr', tr_acc_avg tr'))
     (step' example_env example_trainer [[[[0]]]] [0] 0 2 2 train_w)
   = Inr ([False, True],
          \<lparr>m_sum = ln 2 + (1/5) * 2 powr (3/5), m_cnt = 1\<rparr>, \<lparr>m_sum = ln 2, m_cnt = 1\<rparr>,
          \<lparr>m_sum = 2, m_cnt = 1\<rparr>, \<lparr>m_sum = 1, m_cnt = 1\<rparr>)"
  by (simp add: step'_def ex_train_w_value Let_def)
     (simp add: example_trainer_def example_env_def meter_update_def meter_empty_def)

section \<open>The latency of a layer and the latency loss\<close>

lemma map_res_Inr:
  "(\<And>x. x \<in> set xs \<Longrightarrow> f x = Inr (h x)) \<Longrightarrow> map_res f xs = Inr (map h xs)"
  by (induction xs) simp_all









lemma forward_Inr:
  assumes "forward net input target temperature thl g = Inr ((loss, ce, lat_loss, acc), net')"
  shows "\<exists>lats logits.
        forward_logits net input (case temperature of None \<Rightarrow> 5 | Some t \<Rightarrow> t) thl g
          = Inr (lats, logits)
      \<and> metrics (fb_alpha net) (fb_beta net) (length input) lats logits target
          = Inr (loss, ce, lat_loss, acc)"
proof (cases temperature)
  case None
  with assms show ?thesis
    by (auto simp: forward_def Let_def split: sum.splits prod.splits)
next
  case (Some t)
  with assms show ?thesis
    by (auto simp: forward_def Let_def split: sum.splits prod.splits)
qed









section \<open>The values a forward call returns\<close>

lemma argmax_from_max:
  "length pre = i \<Longrightarrow> best < i \<Longrightarrow> m = (pre @ xs) ! best \<Longrightarrow> \<forall>j<i. (pre @ xs) ! j \<le> m \<Longrightarrow>
   argmax_from best m i xs < length (pre @ xs)
   \<and> (\<forall>j<length (pre @ xs). (pre @ xs) ! j \<le> (pre @ xs) ! argmax_from best m i xs)"
proof (induction xs arbitrary: pre best m i)
  case Nil
  then show ?case by simp
next
  case (Cons x xs)
  have x: "(pre @ x # xs) ! i = x" using Cons.prems(1) by (simp add: nth_append)
  have e: "pre @ x # xs = (pre @ [x]) @ xs" by simp
  show ?case
  proof (cases "m < x")
    case True
    have "\<forall>j<Suc i. ((pre @ [x]) @ xs) ! j \<le> x"
    proof (intro allI impI)
      fix j assume "j < Suc i"
      then consider "j < i" | "j = i" by linarith
      then show "((pre @ [x]) @ xs) ! j \<le> x"
      proof cases
        case 1
        then have "(pre @ x # xs) ! j \<le> m" using Cons.prems(4) by simp
        then show ?thesis using True by simp
      next
        case 2
        then show ?thesis using x by simp
      qed
    qed
    from Cons.IH[of "pre @ [x]" "Suc i" i x, OF _ _ _ this] Cons.prems(1) x True
    show ?thesis by (simp only: e) simp
  next
    case False
    have "\<forall>j<Suc i. ((pre @ [x]) @ xs) ! j \<le> m"
    proof (intro allI impI)
      fix j assume "j < Suc i"
      then consider "j < i" | "j = i" by linarith
      then show "((pre @ [x]) @ xs) ! j \<le> m"
      proof cases
        case 1
        then show ?thesis using Cons.prems(4) by simp
      next
        case 2
        then show ?thesis using x False by simp
      qed
    qed
    from Cons.IH[of "pre @ [x]" "Suc i" best m, OF _ _ _ this] Cons.prems(1,2,3) False
    show ?thesis by (simp only: e) simp
  qed
qed

lemma argmax_is_max:
  assumes "argmax l = Inr k"
  shows "k < length l \<and> (\<forall>j<length l. l ! j \<le> l ! k)"
proof -
  from assms obtain x xs where l: "l = x # xs" and k: "k = argmax_from 0 x 1 xs"
    by (auto simp: argmax_def split: list.splits)
  from argmax_from_max[of "[x]" 1 0 x xs] show ?thesis unfolding l k by simp
qed


lemma forward_logits_rows:
  "forward_logits net input tau thl g = Inr (lats, logits) \<Longrightarrow> length logits = length input"
  by (auto simp: forward_logits_def reshape_rows_def linear_apply_def Let_def
           split: sum.splits prod.splits pyval.splits if_splits)

lemma CrossEntropyLoss_Inr:
  assumes "CrossEntropyLoss logits target = Inr ce"
  shows "length logits = length target
       \<and> ce = (\<Sum>(l, t)\<leftarrow>filter (\<lambda>(l, t). t \<noteq> - 100) (zip logits target). example_ce l t)
                / real (length (filter (\<lambda>(l, t). t \<noteq> - 100) (zip logits target)))
       \<and> (list_all (\<lambda>t. t \<noteq> - 100) target \<longrightarrow>
            ce = (\<Sum>(l, t)\<leftarrow>zip logits target. example_ce l t) / real (length logits))"
proof -
  from assms have n: "length logits = length target"
    and c: "ce = (\<Sum>(l, t)\<leftarrow>filter (\<lambda>(l, t). t \<noteq> - 100) (zip logits target). example_ce l t)
                / real (length (filter (\<lambda>(l, t). t \<noteq> - 100) (zip logits target)))"
    by (auto simp: CrossEntropyLoss_def Let_def split: if_splits)
  have "filter (\<lambda>(l, t). t \<noteq> - 100) (zip logits target) = zip logits target"
    if "list_all (\<lambda>t. t \<noteq> - 100) target"
    using that by (auto simp: filter_id_conv list_all_iff dest: set_zip_rightD)
  with n c show ?thesis by simp
qed

lemma metrics_Inr:
  assumes "metrics alpha beta B lats logits target = Inr (loss, ce, lat_loss, acc)"
  shows "\<exists>p pred. CrossEntropyLoss logits target = Inr ce \<and> 0 < B
       \<and> lat_loss = sum_list lats / real B
       \<and> torch_pow lat_loss beta = Inr p \<and> loss = ce + alpha * p
       \<and> map_res argmax logits = Inr pred
       \<and> acc = real (length (filter (\<lambda>(k, t). int k = t) (zip pred target))) / real B"
  using assms by (auto simp: metrics_def Let_def split: sum.splits if_splits)

lemma torch_pow_pos: "torch_pow x b = Inr p \<Longrightarrow> 0 < x \<Longrightarrow> p = x powr b"
  by (auto simp: torch_pow_def split: if_splits)

lemma map_res_all2: "map_res f xs = Inr ys \<Longrightarrow> list_all2 (\<lambda>x y. f x = Inr y) xs ys"
  by (induction xs arbitrary: ys) (auto split: sum.splits)

subsection \<open>The small network on a batch of two\<close>

lemma ex2_weights:
  "gumbel_softmax (replicate (Suc (Suc 0)) [0, 0]) 1 (\<lambda>b i. 0) = Inr [[1/2, 1/2], [1/2, 1/2]]"
  by (simp add: gumbel_softmax_def softmax_def enumerate_eq_zip)

lemma ex2_mul2:
  "mul2 [[1/2, 1/2], [1/2, 1/2]] (replicate (Suc (Suc 0)) [1, 3]) = Inr [[1/2, 3/2], [1/2, 3/2]]"
  by (simp add: mul2_def bcast_def mul0_def)

lemma ex2_mixed:
  "MixedOp_forward [id, id] (Ten [[[[0]]], [[[0]]]]) [[1/2, 1/2], [1/2, 1/2]]
     = Inr (Ten [[[[0]]], [[[0]]]])"
  by (simp add: MixedOp_forward_def column_def reshape_col_def mul4_def bcast_def mul0_def
        add4_def add0_def)

lemma ex2_layer:
  "layer example_net (Suc (Suc 0)) 1 None (\<lambda>l b i. 0) (Suc (Suc 0)) 0 [] (Ten [[[[0]]], [[[0]]]])
     = Inr ([4], Ten [[[[0]]], [[[0]]]])"
  using ex_speed ex2_weights ex2_mul2 ex2_mixed
  by (simp add: layer_def ex_fields[OF ex_like_example] nth_res_def)

lemma ex2_logits:
  "forward_logits example_net [[[[0]]], [[[0]]]] 1 None (\<lambda>l b i. 0) = Inr ([4], [[0, 0], [0, 0]])"
  using ex2_layer
  by (simp add: forward_logits_def ex_fields[OF ex_like_example] avg_pool_all_def
        reshape_rows_def linear_apply_def upt_rec)

lemma ex2_metrics:
  "metrics (1/5) (3/5) (Suc (Suc 0)) [4] [[0, 0], [0, 0]] [0, 0]
     = Inr (ln 2 + (1/5) * 2 powr (3/5), ln 2, 2, 1)"
  by (simp add: metrics_def CrossEntropyLoss_def example_ce_def torch_pow_def argmax_def)

text \<open>
  C2, as the code has it. When \<open>forward\<close> returns, the logits have one row per example
  and there are as many targets; the returned cross-entropy is the mean of the
  per-example cross-entropy losses of the logits against the targets (the ignore index
  \<open>-100\<close> of the criterion apart: over a batch without it, their sum divided by the batch
  size); the returned loss is that cross-entropy plus alpha times the returned latency
  loss raised to the power beta; and the returned accuracy is the number of examples
  whose arg-max logit (an index of a largest logit) is the target, divided by the batch
  size, so it lies between 0 and 1.
\<close>

theorem forward_returns_metrics:
  assumes "forward net input target temperature thl g = Inr ((loss, ce, lat_loss, acc), net')"
  shows "\<exists>lats logits p pred.
     forward_logits net input (case temperature of None \<Rightarrow> 5 | Some t \<Rightarrow> t) thl g
       = Inr (lats, logits)
   \<and> length logits = length input \<and> length target = length input \<and> input \<noteq> []
   \<and> ce = (\<Sum>(l, t)\<leftarrow>filter (\<lambda>(l, t). t \<noteq> - 100) (zip logits target). example_ce l t)
            / real (length (filter (\<lambda>(l, t). t \<noteq> - 100) (zip logits target)))
   \<and> (list_all (\<lambda>t. t \<noteq> - 100) target \<longrightarrow>
        ce = (\<Sum>(l, t)\<leftarrow>zip logits target. example_ce l t) / real (length input))
   \<and> torch_pow lat_loss (fb_beta net) = Inr p
   \<and> (0 < lat_loss \<longrightarrow> p = lat_loss powr fb_beta net)
   \<and> loss = ce + fb_alpha net * p
   \<and> map_res argmax logits = Inr pred
   \<and> (\<forall>(l, k)\<in>set (zip logits pred). k < length l \<and> (\<forall>j<length l. l ! j \<le> l ! k))
   \<and> acc = real (length (filter (\<lambda>(k, t). int k = t) (zip pred target))) / real (length input)
   \<and> 0 \<le> acc \<and> acc \<le> 1"
proof -
  from forward_Inr[OF assms] obtain lats logits where
    fl: "forward_logits net input (case temperature of None \<Rightarrow> 5 | Some t \<Rightarrow> t) thl g
          = Inr (lats, logits)" and
    m: "metrics (fb_alpha net) (fb_beta net) (length input) lats logits target
          = Inr (loss, ce, lat_loss, acc)" by auto
  from metrics_Inr[OF m] obtain p pred where
    c: "CrossEntropyLoss logits target = Inr ce" and b: "0 < length input" and
    tp: "torch_pow lat_loss (fb_beta net) = Inr p" and lo: "loss = ce + fb_alpha net * p" and
    am: "map_res argmax logits = Inr pred" and
    ac: "acc = real (length (filter (\<lambda>(k, t). int k = t) (zip pred target))) / real (length input)"
    by auto
  note rows = forward_logits_rows[OF fl]
  note ce = CrossEntropyLoss_Inr[OF c]
  have mx: "\<forall>(l, k)\<in>set (zip logits pred). k < length l \<and> (\<forall>j<length l. l ! j \<le> l ! k)"
  proof -
    from map_res_all2[OF am] have "list_all2 (\<lambda>l k. argmax l = Inr k) logits pred" .
    then have "\<forall>(l, k)\<in>set (zip logits pred). argmax l = Inr k"
      by (simp add: list_all2_iff)
    then show ?thesis using argmax_is_max by fastforce
  qed
  have "length (filter (\<lambda>(k, t). int k = t) (zip pred target)) \<le> length (zip pred target)"
    by (rule length_filter_le)
  also have "\<dots> \<le> length input" using ce rows by simp
  finally have le: "length (filter (\<lambda>(k, t). int k = t) (zip pred target)) \<le> length input" .
  have a0: "0 \<le> acc" unfolding ac by simp
  have a1: "acc \<le> 1" unfolding ac using le b by (simp add: divide_le_eq_1)
  have tl: "length target = length input" using ce rows by simp
  have ne: "input \<noteq> []" using b by simp
  have c1: "ce = (\<Sum>(l, t)\<leftarrow>filter (\<lambda>(l, t). t \<noteq> - 100) (zip logits target). example_ce l t)
            / real (length (filter (\<lambda>(l, t). t \<noteq> - 100) (zip logits target)))"
    using ce by blast
  have c2: "list_all (\<lambda>t. t \<noteq> - 100) target \<longrightarrow>
        ce = (\<Sum>(l, t)\<leftarrow>zip logits target. example_ce l t) / real (length input)"
    using conjunct2[OF conjunct2[OF ce]] unfolding rows .
  have pp: "0 < lat_loss \<longrightarrow> p = lat_loss powr fb_beta net"
    using torch_pow_pos[OF tp] by blast
  show ?thesis
    by (intro exI[of _ lats] exI[of _ logits] exI[of _ p] exI[of _ pred] conjI)
       (fact fl, fact rows, fact tl, fact ne, fact c1, fact c2, fact tp, fact pp, fact lo,
        fact am, fact mx, fact ac, fact a0, fact a1)
qed


theorem forward_returns_metrics_witness:
  "\<exists>lats logits p pred.
     forward_logits example_net [[[[0]]]] 1 None (\<lambda>l b i. 0) = Inr (lats, logits)
   \<and> ln 2 = (\<Sum>(l, t)\<leftarrow>zip logits [0]. example_ce l t) / real (length [[[[0::real]]]])
   \<and> p = 2 powr (3/5)
   \<and> ln 2 + (1/5) * 2 powr (3/5) = ln 2 + (1/5) * p
   \<and> map_res argmax logits = Inr pred
   \<and> (1::real) = real (length (filter (\<lambda>(k, t). int k = t) (zip pred [0])))
                  / real (length [[[[0::real]]]])"
proof -
  have f: "forward example_net [[[[0]]]] [0] (Some 1) None (\<lambda>l b i. 0)
    = Inr ((ln 2 + (1/5) * 2 powr (3/5), ln 2, 2, 1),
           example_net\<lparr>fb_batch_size := Some 1, fb_ce := Some (ln 2), fb_lat_loss := Some 2,
              fb_loss := Some (ln 2 + (1/5) * 2 powr (3/5)), fb_acc := Some 1\<rparr>)"
    using ex_forward[OF ex_like_example, of 1 None] by simp
  from forward_returns_metrics[OF f] show ?thesis
    by (simp add: ex_fields[OF ex_like_example]) blast
qed

text \<open>
  The claim as stated has the cross-entropy summed over the batch. On a batch of two
  examples with equal logits the per-example losses are \<open>ln 2\<close> each and sum to
  \<open>2 ln 2\<close>, while the call returns \<open>ln 2\<close>: the criterion is built with its default
  reduction, the mean, and \<open>.sum()\<close> of the resulting scalar is that scalar.
\<close>

theorem cross_entropy_is_mean_counterexample:
  "forward_logits example_net [[[[0]]], [[[0]]]] 1 None (\<lambda>l b i. 0) = Inr ([4], [[0, 0], [0, 0]])
   \<and> forward example_net [[[[0]]], [[[0]]]] [0, 0] (Some 1) None (\<lambda>l b i. 0)
       = Inr ((ln 2 + (1/5) * 2 powr (3/5), ln 2, 2, 1),
              example_net\<lparr>fb_batch_size := Some 2, fb_ce := Some (ln 2), fb_lat_loss := Some 2,
                 fb_loss := Some (ln 2 + (1/5) * 2 powr (3/5)), fb_acc := Some 1\<rparr>)
   \<and> (\<Sum>(l, t)\<leftarrow>zip [[0, 0], [0, 0]] [0, 0]. example_ce l t) = 2 * ln 2
   \<and> ln 2 \<noteq> 2 * ln (2::real)"
proof -
  have f: "forward example_net [[[[0]]], [[[0]]]] [0, 0] (Some 1) None (\<lambda>l b i. 0)
       = Inr ((ln 2 + (1/5) * 2 powr (3/5), ln 2, 2, 1),
              example_net\<lparr>fb_batch_size := Some 2, fb_ce := Some (ln 2), fb_lat_loss := Some 2,
                 fb_loss := Some (ln 2 + (1/5) * 2 powr (3/5)), fb_acc := Some 1\<rparr>)"
    using ex2_logits ex2_metrics by (simp add: forward_def ex_fields[OF ex_like_example])
  have s: "(\<Sum>(l, t)\<leftarrow>zip [[0, 0], [0, 0]] [0, 0]. example_ce l t) = 2 * ln 2"
    by (simp add: example_ce_def)
  have n: "ln 2 \<noteq> 2 * ln (2::real)" by simp
  from ex2_logits f s n show ?thesis by blast
qed

section \<open>The mixed operation is the weighted sum of its blocks\<close>

lemma bcast_zip:
  assumes "length xs = length ys"
      and "\<And>i. i < length xs \<Longrightarrow> f (xs ! i) (ys ! i) = Inr (h (xs ! i) (ys ! i))"
  shows "bcast f xs ys = Inr (map (\<lambda>(x, y). h x y) (zip xs ys))"
proof -
  have "map_res (\<lambda>(x, y). f x y) (zip xs ys) = Inr (map (\<lambda>(x, y). h x y) (zip xs ys))"
    by (rule map_res_Inr) (use assms in \<open>auto simp: in_set_zip\<close>)
  then show ?thesis using assms(1) by (simp add: bcast_def)
qed

lemma bcast_single:
  assumes "\<And>y. y \<in> set ys \<Longrightarrow> f x y = Inr (h y)"
  shows "bcast f [x] ys = Inr (map h ys)"
proof (cases "length ys = 1")
  case True
  then obtain y where y: "ys = [y]" by (cases ys) auto
  then show ?thesis using assms by (simp add: bcast_def)
next
  case False
  then show ?thesis using map_res_Inr[of ys "f x" h] assms by (simp add: bcast_def)
qed

lemma scale_example:
  "bcast (bcast (bcast mul0)) [[[v]]] ex = Inr (map (map (map (\<lambda>a. v * a))) ex)"
proof -
  have a: "bcast mul0 [v] row = Inr (map (\<lambda>a. v * a) row)" for row
    by (rule bcast_single) (simp add: mul0_def)
  have b: "bcast (bcast mul0) [[v]] ch = Inr (map (map (\<lambda>a. v * a)) ch)" for ch
    by (rule bcast_single) (rule a)
  show ?thesis by (rule bcast_single) (rule b)
qed

lemma scale_tensor:
  assumes "length wcol = length r \<or> length wcol = 1"
  shows "mul4 (reshape_col wcol) r
         = Inr (map (\<lambda>(b, ex). map (map (map (\<lambda>a. wcol ! (if length wcol = 1 then 0 else b) * a))) ex)
                  (enumerate 0 r))"
proof (cases "length wcol = 1")
  case True
  then obtain v where v: "wcol = [v]" by (cases wcol) auto
  have "bcast (bcast (bcast (bcast mul0))) [[[[v]]]] r = Inr (map (map (map (map (\<lambda>a. v * a)))) r)"
    by (rule bcast_single) (rule scale_example)
  moreover have "map (\<lambda>(b, ex). map (map (map (\<lambda>a. v * a))) ex) (enumerate 0 r)
                 = map (map (map (map (\<lambda>a. v * a)))) r"
    by (simp add: list_eq_iff_nth_eq nth_enumerate_eq)
  ultimately show ?thesis by (simp add: mul4_def reshape_col_def v)
next
  case False
  with assms have l: "length wcol = length r" by simp
  have "bcast (bcast (bcast (bcast mul0))) (map (\<lambda>v. [[[v]]]) wcol) r
        = Inr (map (\<lambda>(x, y). map (map (map (\<lambda>a. (hd (hd (hd x))) * a))) y)
                 (zip (map (\<lambda>v. [[[v]]]) wcol) r))"
    by (rule bcast_zip) (use l in \<open>simp_all add: scale_example\<close>)
  moreover have "map (\<lambda>(x, y). map (map (map (\<lambda>a. (hd (hd (hd x))) * a))) y)
                 (zip (map (\<lambda>v. [[[v]]]) wcol) r)
        = map (\<lambda>(b, ex). map (map (map (\<lambda>a. wcol ! b * a))) ex) (enumerate 0 r)"
    using l by (simp add: list_eq_iff_nth_eq nth_enumerate_eq)
  ultimately show ?thesis using False by (simp add: mul4_def reshape_col_def)
qed


lemma shapeD1: "shape s = shape t \<Longrightarrow> length s = length t"
  unfolding shape_def by (rule map_eq_imp_length_eq)

lemma shapeD2:
  assumes "shape s = shape t" and "b < length s"
  shows "map (map length) (s ! b) = map (map length) (t ! b)"
proof -
  have "shape s ! b = shape t ! b" using assms(1) by simp
  then show ?thesis using assms(2) shapeD1[OF assms(1)] by (simp add: shape_def)
qed

lemma shapeD3:
  assumes "shape s = shape t" and "b < length s" and "c < length (s ! b)"
  shows "map length (s ! b ! c) = map length (t ! b ! c)"
proof -
  note e = shapeD2[OF assms(1,2)]
  have l: "length (s ! b) = length (t ! b)" using e by (rule map_eq_imp_length_eq)
  have "map (map length) (s ! b) ! c = map (map length) (t ! b) ! c" using e by simp
  then show ?thesis using assms(3) l by simp
qed

lemma shapeD4:
  assumes "shape s = shape t" and "b < length s" and "c < length (s ! b)" and "h < length (s ! b ! c)"
  shows "length (s ! b ! c ! h) = length (t ! b ! c ! h)"
proof -
  note e = shapeD3[OF assms(1,2,3)]
  have l: "length (s ! b ! c) = length (t ! b ! c)" using e by (rule map_eq_imp_length_eq)
  have "map length (s ! b ! c) ! h = map length (t ! b ! c) ! h" using e by simp
  then show ?thesis using assms(4) l by simp
qed

lemma shape_lengths:
  assumes "shape s = shape t"
  shows "length s = length t"
    and "b < length s \<Longrightarrow> length (s ! b) = length (t ! b)"
    and "b < length s \<Longrightarrow> c < length (s ! b) \<Longrightarrow> length (s ! b ! c) = length (t ! b ! c)"
    and "b < length s \<Longrightarrow> c < length (s ! b) \<Longrightarrow> h < length (s ! b ! c)
           \<Longrightarrow> length (s ! b ! c ! h) = length (t ! b ! c ! h)"
  using shapeD1[OF assms] shapeD2[OF assms, THEN map_eq_imp_length_eq]
        shapeD3[OF assms, THEN map_eq_imp_length_eq] shapeD4[OF assms]
  by auto

lemma inb_shape: "shape s = shape t \<Longrightarrow> inb s b c h w = inb t b c h w"
  using shape_lengths[of s t] shape_lengths[of t s] unfolding inb_def by metis

lemma shapeI:
  assumes "length s = length t"
      and "\<And>b. b < length s \<Longrightarrow> length (s ! b) = length (t ! b)"
      and "\<And>b c. b < length s \<Longrightarrow> c < length (s ! b) \<Longrightarrow> length (s ! b ! c) = length (t ! b ! c)"
      and "\<And>b c h. b < length s \<Longrightarrow> c < length (s ! b) \<Longrightarrow> h < length (s ! b ! c)
             \<Longrightarrow> length (s ! b ! c ! h) = length (t ! b ! c ! h)"
  shows "shape s = shape t"
  unfolding shape_def using assms by (simp add: list_eq_iff_nth_eq)

lemma tensor_eqI:
  assumes "shape s = shape t"
      and "\<And>b c h w. inb s b c h w \<Longrightarrow> elem s b c h w = elem t b c h w"
  shows "s = t"
proof -
  note l = shape_lengths[OF assms(1)]
  show ?thesis
    using l assms(2) unfolding inb_def elem_def
    by (simp add: list_eq_iff_nth_eq)
qed


lemma scaled_shape: "shape (scaled wcol r) = shape r"
  by (rule shapeI) (simp_all add: scaled_def nth_enumerate_eq)

lemma scaled_elem:
  "inb r b c h w \<Longrightarrow>
   elem (scaled wcol r) b c h w = wcol ! (if length wcol = 1 then 0 else b) * elem r b c h w"
  by (simp add: inb_def elem_def scaled_def nth_enumerate_eq)

lemma add_l1: "length a = length b \<Longrightarrow> bcast add0 a b = Inr (map (\<lambda>(x, y). x + y) (zip a b))"
  by (rule bcast_zip) (simp_all add: add0_def)

lemma add_l2:
  assumes "length s = length t" and "\<And>i. i < length s \<Longrightarrow> length (s ! i) = length (t ! i)"
  shows "bcast (bcast add0) s t = Inr (map (\<lambda>(x, y). map (\<lambda>(a, b). a + b) (zip x y)) (zip s t))"
  by (rule bcast_zip) (use assms add_l1 in auto)

lemma add_l3:
  assumes "length s = length t" and "\<And>i. i < length s \<Longrightarrow> length (s ! i) = length (t ! i)"
      and "\<And>i j. i < length s \<Longrightarrow> j < length (s ! i) \<Longrightarrow> length (s ! i ! j) = length (t ! i ! j)"
  shows "bcast (bcast (bcast add0)) s t
         = Inr (map (\<lambda>(x, y). map (\<lambda>(x, y). map (\<lambda>(a, b). a + b) (zip x y)) (zip x y)) (zip s t))"
  by (rule bcast_zip) (use assms add_l2 in auto)

lemma add4_plus4:
  assumes "shape s = shape t"
  shows "add4 s t = Inr (plus4 s t)"
  unfolding add4_def plus4_def
  by (rule bcast_zip) (use shape_lengths[OF assms] add_l3 in auto)

lemma plus4_shape: "shape s = shape t \<Longrightarrow> shape (plus4 s t) = shape s"
  using shape_lengths[of s t]
  by (intro shapeI) (simp_all add: plus4_def)

lemma plus4_elem:
  assumes "shape s = shape t" and "inb s b c h w"
  shows "elem (plus4 s t) b c h w = elem s b c h w + elem t b c h w"
proof -
  from assms(2) have i: "b < length s" "c < length (s ! b)" "h < length (s ! b ! c)"
    "w < length (s ! b ! c ! h)" by (simp_all add: inb_def)
  note l = shape_lengths[OF assms(1)]
  have j: "b < length t" "c < length (t ! b)" "h < length (t ! b ! c)" "w < length (t ! b ! c ! h)"
    using i l(1) l(2)[OF i(1)] l(3)[OF i(1,2)] l(4)[OF i(1,2,3)] by simp_all
  have 1: "plus4 s t ! b = map (\<lambda>(x, y). map (\<lambda>(x, y). map (\<lambda>(a, b). a + b) (zip x y)) (zip x y))
                     (zip (s ! b) (t ! b))"
    using i(1) j(1) by (simp add: plus4_def)
  have 2: "plus4 s t ! b ! c = map (\<lambda>(x, y). map (\<lambda>(a, b). a + b) (zip x y)) (zip (s ! b ! c) (t ! b ! c))"
    unfolding 1 using i(2) j(2) by simp
  have 3: "plus4 s t ! b ! c ! h = map (\<lambda>(a, b). a + b) (zip (s ! b ! c ! h) (t ! b ! c ! h))"
    unfolding 2 using i(3) j(3) by simp
  have 4: "plus4 s t ! b ! c ! h ! w = s ! b ! c ! h ! w + t ! b ! c ! h ! w"
    unfolding 3 using i(4) j(4) by simp
  then show ?thesis by (simp add: elem_def)
qed


lemma column_Inr:
  "\<forall>row\<in>set weights. i < length row \<Longrightarrow> column i weights = Inr (map (\<lambda>row. row ! i) weights)"
  by (simp add: column_def list_all_iff)

lemma mul4_scaled:
  "length wcol = length r \<or> length wcol = 1 \<Longrightarrow> mul4 (reshape_col wcol) r = Inr (scaled wcol r)"
  by (simp add: scale_tensor scaled_def)

lemma mixed_terms_Inr:
  assumes "\<forall>row\<in>set weights. i + length ops \<le> length row"
      and "\<forall>op\<in>set ops. length weights = length (op x) \<or> length weights = 1"
  shows "mixed_terms ops i (Ten x) weights
         = Inr (map (\<lambda>j. scaled (map (\<lambda>row. row ! (i + j)) weights) ((ops ! j) x)) [0..<length ops])"
  using assms
proof (induction ops arbitrary: i)
  case Nil
  then show ?case by simp
next
  case (Cons op ops)
  have c: "column i weights = Inr (map (\<lambda>row. row ! i) weights)"
    by (rule column_Inr) (use Cons.prems(1) in force)
  have m: "mul4 (reshape_col (map (\<lambda>row. row ! i) weights)) (op x)
           = Inr (scaled (map (\<lambda>row. row ! i) weights) (op x))"
    by (rule mul4_scaled) (use Cons.prems(2) in auto)
  have r: "mixed_terms ops (Suc i) (Ten x) weights
         = Inr (map (\<lambda>j. scaled (map (\<lambda>row. row ! (Suc i + j)) weights) ((ops ! j) x)) [0..<length ops])"
    by (rule Cons.IH) (use Cons.prems in auto)
  have u: "[0..<length (op # ops)] = 0 # map Suc [0..<length ops]"
    by (simp add: upt_conv_Cons map_Suc_upt del: upt_Suc)
  show ?case unfolding u by (simp add: c m r comp_def)
qed

lemma py_sum_Ten:
  assumes "\<forall>t\<in>set ts. shape t = shape acc"
  shows "\<exists>u. py_sum (Ten acc) ts = Inr (Ten u) \<and> shape u = shape acc
           \<and> (\<forall>b c h w. inb acc b c h w \<longrightarrow>
                 elem u b c h w = elem acc b c h w + (\<Sum>t\<leftarrow>ts. elem t b c h w))"
  using assms
proof (induction ts arbitrary: acc)
  case Nil
  then show ?case by simp
next
  case (Cons t ts)
  have st: "shape acc = shape t" using Cons.prems by simp
  have a: "py_add (Ten acc) t = Inr (Ten (plus4 acc t))" by (simp add: add4_plus4[OF st])
  have sp: "shape (plus4 acc t) = shape acc" by (rule plus4_shape[OF st])
  have "\<forall>t'\<in>set ts. shape t' = shape (plus4 acc t)" using Cons.prems sp by simp
  from Cons.IH[OF this] obtain u where
    u: "py_sum (Ten (plus4 acc t)) ts = Inr (Ten u)" and su: "shape u = shape (plus4 acc t)" and
    eu: "\<forall>b c h w. inb (plus4 acc t) b c h w \<longrightarrow>
           elem u b c h w = elem (plus4 acc t) b c h w + (\<Sum>t\<leftarrow>ts. elem t b c h w)" by blast
  have "elem u b c h w = elem acc b c h w + (\<Sum>t\<leftarrow>t # ts. elem t b c h w)" if i: "inb acc b c h w"
    for b c h w
  proof -
    have "inb (plus4 acc t) b c h w" using i inb_shape[OF sp] by simp
    with eu have "elem u b c h w = elem (plus4 acc t) b c h w + (\<Sum>t\<leftarrow>ts. elem t b c h w)" by blast
    then show ?thesis using plus4_elem[OF st i] by simp
  qed
  then show ?case using a u su sp by simp
qed

lemma py_add_zero: "py_add (Num 0) t = Inr (Ten t)"
proof -
  have "map (map (map (map ((+) (0::real))))) t = t"
    by (rule map_idI)+ simp
  then show ?thesis by simp
qed


lemma sum_list_upt: "sum_list (map f [0..<n]) = (\<Sum>i<n. (f i :: real))"
  by (simp add: interv_sum_list_conv_sum_set_nat atLeast0LessThan)

text \<open>
  C6. For a mixed operation over at least one candidate block whose outputs on the
  input have one shape, and a weight matrix with one weight per block in every row and
  either one row per example or a single row: the output is a tensor of that shape
  whose every entry is the sum over the blocks of the block's weight (of the example of
  the entry) times the same entry of the block's output; each weight multiplies the
  whole output of its block for that example. Consequently, when every row is one-hot
  at index \<open>k\<close>, the output is the output of block \<open>k\<close>.
\<close>

theorem MixedOp_weighted_sum:
  assumes ne: "ops \<noteq> []"
      and sh: "\<forall>op\<in>set ops. shape (op x) = shape (hd ops x)"
      and wl: "length weights = length (hd ops x) \<or> length weights = 1"
      and wr: "\<forall>row\<in>set weights. length row = length ops"
  shows "\<exists>out. MixedOp_forward ops (Ten x) weights = Inr (Ten out)
       \<and> shape out = shape (hd ops x)
       \<and> (\<forall>b c h w. inb out b c h w \<longrightarrow>
             elem out b c h w = (\<Sum>i<length ops. wsel weights b ! i * elem ((ops ! i) x) b c h w))
       \<and> (\<forall>k<length ops. (\<forall>row\<in>set weights. \<forall>i<length ops. row ! i = (if i = k then 1 else 0))
             \<longrightarrow> out = (ops ! k) x)"
proof -
  let ?N = "length ops"
  let ?T = "\<lambda>j. (ops ! j) x"
  let ?col = "\<lambda>j. map (\<lambda>row. row ! j) weights"
  let ?tmj = "\<lambda>j. scaled (?col j) (?T j)"
  have N: "0 < ?N" using ne by simp
  have hd0: "hd ops = ops ! 0" using ne by (simp add: hd_conv_nth)
  have shT: "shape (?T j) = shape (hd ops x)" if "j < ?N" for j
    using sh that by simp
  have lenT: "length (?T j) = length (hd ops x)" if "j < ?N" for j
    using shapeD1[OF shT[OF that]] .
  have mt: "mixed_terms ops 0 (Ten x) weights = Inr (map ?tmj [0..<?N])"
  proof -
    have "\<forall>row\<in>set weights. 0 + length ops \<le> length row" using wr by simp
    moreover have "\<forall>op\<in>set ops. length weights = length (op x) \<or> length weights = 1"
      using wl sh shapeD1 by metis
    ultimately show ?thesis using mixed_terms_Inr[of weights 0 ops x] by simp
  qed
  have split: "map ?tmj [0..<?N] = ?tmj 0 # map ?tmj [Suc 0..<?N]"
    using N by (simp add: upt_conv_Cons del: upt_Suc)
  have sht: "shape (?tmj j) = shape (hd ops x)" if "j < ?N" for j
    using scaled_shape[of "?col j" "?T j"] shT[OF that] by simp
  have "\<forall>t\<in>set (map ?tmj [Suc 0..<?N]). shape t = shape (?tmj 0)"
    using sht N by auto
  from py_sum_Ten[OF this] obtain out where
    ps: "py_sum (Ten (?tmj 0)) (map ?tmj [Suc 0..<?N]) = Inr (Ten out)" and
    so: "shape out = shape (?tmj 0)" and
    eo: "\<forall>b c h w. inb (?tmj 0) b c h w \<longrightarrow>
           elem out b c h w = elem (?tmj 0) b c h w + (\<Sum>t\<leftarrow>map ?tmj [Suc 0..<?N]. elem t b c h w)"
    by blast
  have fw: "MixedOp_forward ops (Ten x) weights = Inr (Ten out)"
    by (simp add: MixedOp_forward_def mt split py_add_zero ps del: upt_Suc py_add.simps)
  have sho: "shape out = shape (hd ops x)" using so sht[OF N] by simp
  have el: "elem out b c h w = (\<Sum>i<?N. wsel weights b ! i * elem (?T i) b c h w)"
    if i: "inb out b c h w" for b c h w
  proof -
    have i0: "inb (?tmj 0) b c h w" using i inb_shape[OF so] by simp
    have "elem out b c h w = (\<Sum>t\<leftarrow>map ?tmj [0..<?N]. elem t b c h w)"
      using eo i0 unfolding split by simp
    also have "\<dots> = sum_list (map (\<lambda>j. elem (?tmj j) b c h w) [0..<?N])"
      by (simp add: comp_def del: upt_Suc)
    also have "\<dots> = (\<Sum>j<?N. elem (?tmj j) b c h w)" by (rule sum_list_upt)
    also have "\<dots> = (\<Sum>j<?N. wsel weights b ! j * elem (?T j) b c h w)"
    proof (rule sum.cong[OF refl])
      fix j assume "j \<in> {..<?N}"
      then have j: "j < ?N" by simp
      have iT: "inb (?T j) b c h w"
        using i inb_shape[of out "?T j"] sho shT[OF j] by simp
      have b: "b < length (hd ops x)" using i shapeD1[OF sho] by (simp add: inb_def)
      have sel: "(if length weights = 1 then 0 else b) < length weights"
        using wl b by auto
      have "elem (?tmj j) b c h w
            = ?col j ! (if length (?col j) = 1 then 0 else b) * elem (?T j) b c h w"
        by (rule scaled_elem[OF iT])
      also have "?col j ! (if length (?col j) = 1 then 0 else b) = wsel weights b ! j"
        using sel by (simp add: wsel_def)
      finally show "elem (?tmj j) b c h w = wsel weights b ! j * elem (?T j) b c h w" .
    qed
    finally show ?thesis .
  qed
  have oh: "out = ?T k"
    if k: "k < ?N" and one: "\<forall>row\<in>set weights. \<forall>i<?N. row ! i = (if i = k then 1 else 0)" for k
  proof (rule tensor_eqI)
    show "shape out = shape (?T k)" using sho shT[OF k] by simp
  next
    fix b c h w assume i: "inb out b c h w"
    have b: "b < length (hd ops x)" using i shapeD1[OF sho] by (simp add: inb_def)
    have "(if length weights = 1 then 0 else b) < length weights" using wl b by auto
    then have "wsel weights b \<in> set weights" unfolding wsel_def by (rule nth_mem)
    with one have w: "\<And>i. i < ?N \<Longrightarrow> wsel weights b ! i = (if i = k then 1 else 0)" by blast
    have "elem out b c h w = (\<Sum>i<?N. wsel weights b ! i * elem (?T i) b c h w)" by (rule el[OF i])
    also have "\<dots> = (\<Sum>i<?N. (if i = k then elem (?T i) b c h w else 0))"
      by (rule sum.cong[OF refl]) (simp add: w)
    also have "\<dots> = elem (?T k) b c h w" using k by (simp add: sum.delta)
    finally show "elem out b c h w = elem (?T k) b c h w" .
  qed
  show ?thesis using fw sho el oh by blast
qed


theorem MixedOp_weighted_sum_witness:
  "MixedOp_forward [\<lambda>t. t, map (map (map (map (\<lambda>v. 2 * v))))] (Ten [[[[3]]]]) [[0, 1]]
     = Inr (Ten [[[[6]]]])"
proof -
  let ?ops = "[\<lambda>t. t, map (map (map (map (\<lambda>v. 2 * v))))] :: block list"
  have ne: "?ops \<noteq> []" by simp
  have sh: "\<forall>op\<in>set ?ops. shape (op [[[[3]]]]) = shape (hd ?ops [[[[3]]]])"
    by (simp add: shape_def)
  have wl: "length [[0, 1::real]] = length (hd ?ops [[[[3]]]]) \<or> length [[0, 1::real]] = 1" by simp
  have wr: "\<forall>row\<in>set [[0, 1::real]]. length row = length ?ops" by simp
  have one: "\<forall>row\<in>set [[0, 1::real]]. \<forall>i<length ?ops. row ! i = (if i = 1 then 1 else 0)"
    by (simp add: less_Suc_eq)
  from MixedOp_weighted_sum[OF ne sh wl wr] obtain out where
    f: "MixedOp_forward ?ops (Ten [[[[3]]]]) [[0, 1]] = Inr (Ten out)" and
    o: "\<forall>k<length ?ops. (\<forall>row\<in>set [[0, 1::real]]. \<forall>i<length ?ops. row ! i = (if i = k then 1 else 0))
             \<longrightarrow> out = (?ops ! k) [[[[3]]]]"
    by blast
  have k: "(1::nat) < length ?ops" by simp
  from o k one have "out = (?ops ! 1) [[[[3]]]]" by blast
  then show ?thesis using f by simp
qed

section \<open>The latency term and the architecture parameters\<close>

text \<open>
  C1. The spec has the latency term of the loss propagate a gradient to the architecture
  parameters. In the code the latency loss has no autograd history, whatever the
  network: the combined loss has exactly the history of the cross-entropy, so
  \<open>backward\<close> reaches theta through the mixed operations only. On the small network the
  latency of the layer, as the loop computes it, does have theta of layer 0 in its
  history; the latency loss built from it after line 110 has not.
\<close>

theorem latency_loss_has_no_history:
  "snd (snd (fst (forward_history net))) = {}
   \<and> fst (fst (forward_history net)) = fst (snd (fst (forward_history net)))
   \<and> forward_history example_net = (({0}, {0}, {}), [{0}])"
  by (simp add: forward_history_def Let_def example_net_def split: prod.splits)

end
